theory Spec2Isabelle
  imports Complex_Main "HOL-Library.Log_Nat" "HOL-Library.Multiset"
begin

chapter \<open>The update service of OrionTV (services/updateService.ts)\<close>

text \<open>
  A shallow embedding of the class \<^verbatim>\<open>UpdateService\<close>: the pure version comparison, and the
  four asynchronous operations (\<^verbatim>\<open>checkVersion\<close>, \<^verbatim>\<open>cleanOldApkFiles\<close>, \<^verbatim>\<open>downloadApk\<close>,
  \<^verbatim>\<open>installApk\<close>) as state transformers over the outside world with errors as values.
  Numbers are IEEE 754 binary64 values, as in the language. Strings are \<open>char list\<close>; the
  only characters the code inspects are ASCII (the dot, the decimal digits, the file-name
  prefix and suffix).
\<close>

section \<open>JavaScript numbers\<close>

text \<open>
  A JavaScript number is an IEEE 754 binary64 value: a NaN, an infinity, a signed zero or a
  finite non-zero rational. \<open>Fin 0\<close> is the positive zero, \<open>NegZero\<close> the negative one, and
  \<open>Fin q\<close> with \<open>q \<noteq> 0\<close> a finite value.
\<close>

datatype jsnum = NaN | NegInf | Fin rat | NegZero | PosInf

text \<open>The relational operators \<^verbatim>\<open><\<close> and \<^verbatim>\<open>></\<close>: every comparison with NaN is false.\<close>

fun js_lt :: "jsnum \<Rightarrow> jsnum \<Rightarrow> bool" where
  "js_lt NaN y = False"
| "js_lt x NaN = False"
| "js_lt PosInf y = False"
| "js_lt x NegInf = False"
| "js_lt NegInf y = True"
| "js_lt x PosInf = True"
| "js_lt (Fin a) (Fin b) = (a < b)"
| "js_lt (Fin a) NegZero = (a < 0)"
| "js_lt NegZero (Fin b) = (0 < b)"
| "js_lt NegZero NegZero = False"

definition js_gt :: "jsnum \<Rightarrow> jsnum \<Rightarrow> bool" where
  "js_gt x y = js_lt y x"

text \<open>ToBoolean on a number: false for NaN and for both zeros.\<close>

definition truthy :: "jsnum \<Rightarrow> bool" where
  "truthy x = (x \<noteq> NaN \<and> x \<noteq> Fin 0 \<and> x \<noteq> NegZero)"

subsection \<open>Rounding to binary64\<close>

text \<open>Round to the nearest integer, ties to the even one.\<close>

definition round_half_even :: "rat \<Rightarrow> int" where
  "round_half_even q =
     (let f = \<lfloor>q\<rfloor>; r = q - of_int f
      in if r < 1 / 2 then f else if 1 / 2 < r then f + 1 else if even f then f else f + 1)"

definition pow2 :: "int \<Rightarrow> rat" where
  "pow2 e = (if 0 \<le> e then 2 ^ nat e else 1 / 2 ^ nat (- e))"

text \<open>For \<open>q > 0\<close>, the integer \<open>k\<close> with \<open>2\<^sup>k \<le> q < 2\<^sup>k\<^sup>+\<^sup>1\<close>.\<close>

definition floor_log2 :: "rat \<Rightarrow> int" where
  "floor_log2 q =
     (if 1 \<le> q then bitlen \<lfloor>q\<rfloor> - 1 else - bitlen (\<lceil>1 / q\<rceil> - 1))"

text \<open>
  The number value of a rational (round to nearest, ties to even): the significand has 53
  bits, the least exponent of the unit in the last place is \<open>-1074\<close> (subnormals), and a
  rounded magnitude of \<open>2\<^sup>1\<^sup>0\<^sup>2\<^sup>4\<close> or more is an infinity.
\<close>

definition to_double :: "rat \<Rightarrow> jsnum" where
  "to_double q =
     (if q = 0 then Fin 0
      else
        let a = \<bar>q\<bar>;
            e = max (floor_log2 a - 52) (- 1074);
            v = of_int (round_half_even (a / pow2 e)) * pow2 e
        in if 2 ^ 1024 \<le> v then (if 0 < q then PosInf else NegInf)
           else if v = 0 then (if 0 < q then Fin 0 else NegZero)
           else Fin (sgn q * v))"

subsection \<open>Arithmetic\<close>

fun is_inf :: "jsnum \<Rightarrow> bool" where
  "is_inf PosInf = True"
| "is_inf NegInf = True"
| "is_inf x = False"

fun is_zero :: "jsnum \<Rightarrow> bool" where
  "is_zero (Fin q) = (q = 0)"
| "is_zero NegZero = True"
| "is_zero x = False"

text \<open>The sign bit.\<close>

fun negative :: "jsnum \<Rightarrow> bool" where
  "negative NegInf = True"
| "negative NegZero = True"
| "negative (Fin q) = (q < 0)"
| "negative x = False"

text \<open>The value of a finite number.\<close>

fun finite_value :: "jsnum \<Rightarrow> rat" where
  "finite_value (Fin q) = q"
| "finite_value x = 0"

definition signed_zero :: "bool \<Rightarrow> jsnum" where
  "signed_zero neg = (if neg then NegZero else Fin 0)"

definition signed_inf :: "bool \<Rightarrow> jsnum" where
  "signed_inf neg = (if neg then NegInf else PosInf)"

text \<open>The operator \<^verbatim>\<open>/\<close>.\<close>

definition js_div :: "jsnum \<Rightarrow> jsnum \<Rightarrow> jsnum" where
  "js_div x y =
     (if x = NaN \<or> y = NaN then NaN
      else if is_inf x then (if is_inf y then NaN else signed_inf (negative x \<noteq> negative y))
      else if is_inf y then signed_zero (negative x \<noteq> negative y)
      else if is_zero y then (if is_zero x then NaN else signed_inf (negative x \<noteq> negative y))
      else if is_zero x then signed_zero (negative x \<noteq> negative y)
      else to_double (finite_value x / finite_value y))"

text \<open>The operator \<^verbatim>\<open>*\<close>.\<close>

definition js_mul :: "jsnum \<Rightarrow> jsnum \<Rightarrow> jsnum" where
  "js_mul x y =
     (if x = NaN \<or> y = NaN then NaN
      else if is_inf x \<or> is_inf y then
        (if is_zero x \<or> is_zero y then NaN else signed_inf (negative x \<noteq> negative y))
      else if is_zero x \<or> is_zero y then signed_zero (negative x \<noteq> negative y)
      else to_double (finite_value x * finite_value y))"

text \<open>The operator \<^verbatim>\<open>-\<close>: an exact difference of zero is the positive zero, except
  \<open>(-0) - (+0)\<close>.\<close>

definition js_sub :: "jsnum \<Rightarrow> jsnum \<Rightarrow> jsnum" where
  "js_sub x y =
     (if x = NaN \<or> y = NaN then NaN
      else if is_inf x then (if is_inf y \<and> negative x = negative y then NaN else x)
      else if is_inf y then signed_inf (\<not> negative y)
      else if finite_value x - finite_value y = 0 then
        (if x = NegZero \<and> y = Fin 0 then NegZero else Fin 0)
      else to_double (finite_value x - finite_value y))"

text \<open>\<^verbatim>\<open>Math.floor\<close>.\<close>

fun js_floor :: "jsnum \<Rightarrow> jsnum" where
  "js_floor (Fin q) = Fin (of_int \<lfloor>q\<rfloor>)"
| "js_floor x = x"

section \<open>Strings\<close>

definition is_digit :: "char \<Rightarrow> bool" where
  "is_digit c = (48 \<le> (of_char c :: nat) \<and> (of_char c :: nat) \<le> 57)"

definition digit_value :: "char \<Rightarrow> nat" where
  "digit_value c = of_char c - 48"

text \<open>The integer a string of decimal digits denotes.\<close>

definition decimal :: "string \<Rightarrow> nat" where
  "decimal s = foldl (\<lambda>n c. 10 * n + digit_value c) 0 s"

text \<open>\<^verbatim>\<open>s.split('.')\<close>: the pieces between the dots; the empty string gives one empty piece.\<close>

fun split_dot :: "string \<Rightarrow> string list" where
  "split_dot [] = [[]]"
| "split_dot (c # cs) =
     (if c = CHR ''.'' then [] # split_dot cs
      else (case split_dot cs of [] \<Rightarrow> [[c]] | p # ps \<Rightarrow> (c # p) # ps))"

text \<open>\<^verbatim>\<open>s.startsWith(p)\<close>, \<^verbatim>\<open>s.endsWith(p)\<close> and \<^verbatim>\<open>s.includes(p)\<close>.\<close>

definition startsWith :: "string \<Rightarrow> string \<Rightarrow> bool" where
  "startsWith s p = (take (length p) s = p)"

definition endsWith :: "string \<Rightarrow> string \<Rightarrow> bool" where
  "endsWith s p = (length p \<le> length s \<and> drop (length s - length p) s = p)"

definition str_includes :: "string \<Rightarrow> string \<Rightarrow> bool" where
  "str_includes s p = list_ex (\<lambda>i. take (length p) (drop i s) = p) [0..<Suc (length s)]"

text \<open>The decimal rendering of a natural number, as a template literal prints it.\<close>

fun show_nat :: "nat \<Rightarrow> string" where
  "show_nat n =
     (if n < 10 then [''0123456789'' ! n]
      else show_nat (n div 10) @ [''0123456789'' ! (n mod 10)])"

declare show_nat.simps [simp del]

section \<open>What the engine leaves open\<close>

text \<open>
  Two results of built-in functions are not fixed here and are parameters of the model:
  \<^item> \<open>number_rest\<close>: the value of \<^verbatim>\<open>Number(s)\<close> for a string that is neither empty nor made
    of decimal digits only (white space, signs, exponents, hexadecimal literals,
    \<^verbatim>\<open>Infinity\<close>, and everything that is NaN);
  \<^item> \<open>sort_rest\<close>: the order \<^verbatim>\<open>Array.prototype.sort\<close> leaves an array in when the comparator
    is not a consistent comparison function, which ECMAScript leaves to the implementation.
\<close>

record js_engine =
  number_rest :: "string \<Rightarrow> jsnum"
  sort_rest :: "string list \<Rightarrow> string list"

text \<open>
  \<^verbatim>\<open>Number(s)\<close>: the empty string is \<open>0\<close>; a string of decimal digits is its value rounded to
  binary64 (to nearest, ties to even: what ECMAScript requires of a literal of at most 20
  significant digits, and one of the two values it allows for a longer one).
\<close>

definition Number :: "js_engine \<Rightarrow> string \<Rightarrow> jsnum" where
  "Number js s =
     (if s = [] then Fin 0
      else if list_all is_digit s then to_double (of_nat (decimal s))
      else number_rest js s)"

text \<open>\<^verbatim>\<open>parseInt(d, 10)\<close> for a string \<open>d\<close> of decimal digits only: NaN when there is no digit.\<close>

definition parseInt10 :: "string \<Rightarrow> jsnum" where
  "parseInt10 d = (if d = [] then NaN else to_double (of_nat (decimal d)))"

text \<open>
  A stable insertion sort with a comparator, as \<^verbatim>\<open>sort\<close> uses it: \<open>x\<close> goes behind \<open>y\<close> only
  when \<^verbatim>\<open>cmp(x, y) > 0\<close> (a NaN result counts as \<open>0\<close>). With a consistent comparison function
  every stable sort gives this order.
\<close>

fun insort_cmp :: "('a \<Rightarrow> 'a \<Rightarrow> jsnum) \<Rightarrow> 'a \<Rightarrow> 'a list \<Rightarrow> 'a list" where
  "insort_cmp cmp x [] = [x]"
| "insort_cmp cmp x (y # ys) =
     (if js_gt (cmp x y) (Fin 0) then y # insort_cmp cmp x ys else x # y # ys)"

definition sort_cmp :: "('a \<Rightarrow> 'a \<Rightarrow> jsnum) \<Rightarrow> 'a list \<Rightarrow> 'a list" where
  "sort_cmp cmp xs = foldr (insort_cmp cmp) xs []"

section \<open>Version comparison (lines 228-244)\<close>

text \<open>\<^verbatim>\<open>p[i] ?? 0\<close>: an index past the end reads \<^verbatim>\<open>undefined\<close>, which \<^verbatim>\<open>??\<close> replaces by 0.\<close>

definition component :: "jsnum list \<Rightarrow> nat \<Rightarrow> jsnum" where
  "component p i = (if i < length p then p ! i else Fin 0)"

function compare_from :: "jsnum list \<Rightarrow> jsnum list \<Rightarrow> nat \<Rightarrow> int" where
  "compare_from p1 p2 i =
     (if i < max (length p1) (length p2) then
        (if js_gt (component p1 i) (component p2 i) then 1
         else if js_lt (component p1 i) (component p2 i) then - 1
         else compare_from p1 p2 (i + 1))
      else 0)"
  by pat_completeness auto
termination
  by (relation "measure (\<lambda>(p1, p2, i). max (length p1) (length p2) - i)") auto

declare compare_from.simps [simp del]

definition compareVersions :: "js_engine \<Rightarrow> string \<Rightarrow> string \<Rightarrow> int" where
  "compareVersions js v1 v2 =
     compare_from (map (Number js) (split_dot v1)) (map (Number js) (split_dot v2)) 0"

text \<open>
  \<open>currentVersion\<close> is the \<^verbatim>\<open>version\<close> field of \<^verbatim>\<open>package.json\<close>, a file that is not part of
  the sources: it is a parameter.
\<close>

definition getCurrentVersion :: "string \<Rightarrow> string" where
  "getCurrentVersion currentVersion = currentVersion"

definition isUpdateAvailable :: "js_engine \<Rightarrow> string \<Rightarrow> string \<Rightarrow> bool" where
  "isUpdateAvailable js currentVersion remoteVersion =
     (0 < compareVersions js remoteVersion currentVersion)"

section \<open>The outside world\<close>

text \<open>
  A thrown value or a rejected promise: an \<^verbatim>\<open>Error\<close> with its message, or the \<^verbatim>\<open>TypeError\<close>
  of reading a property of \<^verbatim>\<open>null\<close>.
\<close>

datatype error = Error string | TypeError

text \<open>A parsed JSON document, and a value that may be \<^verbatim>\<open>undefined\<close>.\<close>

datatype json =
    JNull
  | JBool bool
  | JNumber rat
  | JString string
  | JArray "json list"
  | JObject "(string \<times> json) list"

datatype jsval = Undefined | Value json

record VersionInfo =
  version :: jsval
  downloadUrl :: string

text \<open>What \<^verbatim>\<open>fetch\<close> resolves to: \<^verbatim>\<open>ok\<close>, \<^verbatim>\<open>status\<close> and the outcome of \<^verbatim>\<open>json()\<close>.\<close>

record response =
  ok :: bool
  status :: nat
  json_body :: "error + json"

text \<open>
  The argument of the download progress callback. The expected total is \<open>None\<close> when the
  file system reports none (the field is \<^verbatim>\<open>undefined\<close>).
\<close>

record progress =
  totalBytesWritten :: jsnum
  totalBytesExpectedToWrite :: "jsnum option"

text \<open>What \<^verbatim>\<open>downloadAsync\<close> resolves to, when it is an object: its \<^verbatim>\<open>uri\<close>, if any.\<close>

record download_result =
  uri :: "string option"

record file_info =
  file_exists :: bool

text \<open>The parameters of \<^verbatim>\<open>IntentLauncher.startActivityAsync\<close>.\<close>

record intent_params =
  intent_data :: string
  intent_type :: string
  intent_flags :: nat

text \<open>The toasts of the service, by their \<^verbatim>\<open>text1\<close> and \<^verbatim>\<open>text2\<close> (line of the \<^verbatim>\<open>Toast.show\<close>).\<close>

datatype toast =
    CheckFailedToast        \<comment> \<open>line 57: the version check failed\<close>
  | DownloadFailedToast     \<comment> \<open>line 151: the download failed\<close>
  | ActivityNotFoundToast   \<comment> \<open>line 194: no application opens the package\<close>
  | PermissionToast         \<comment> \<open>line 200: installs from unknown sources are not allowed\<close>
  | UnknownErrorToast       \<comment> \<open>line 206: any other failure of the launch\<close>
  | UnsupportedToast        \<comment> \<open>line 216: the platform is not Android\<close>

text \<open>What the service does to its collaborators, in order.\<close>

datatype event =
    Fetched string                  \<comment> \<open>\<^verbatim>\<open>fetch(url, ...)\<close>\<close>
  | Waited nat                      \<comment> \<open>\<^verbatim>\<open>setTimeout(r, ms)\<close>, awaited\<close>
  | Toasted toast                   \<comment> \<open>\<^verbatim>\<open>Toast.show\<close>\<close>
  | Warned string error             \<comment> \<open>\<^verbatim>\<open>logger.warn(message, e)\<close>\<close>
  | Debugged string                 \<comment> \<open>\<^verbatim>\<open>logger.debug(message)\<close>\<close>
  | Listed string                   \<comment> \<open>\<^verbatim>\<open>FileSystem.readDirectoryAsync(dir)\<close>\<close>
  | Deleted string                  \<comment> \<open>\<^verbatim>\<open>FileSystem.deleteAsync(path, {idempotent: true})\<close>\<close>
  | Downloaded string string        \<comment> \<open>\<^verbatim>\<open>createDownloadResumable(url, fileUri, ...).downloadAsync()\<close>\<close>
  | Progressed jsnum                \<comment> \<open>the caller's \<^verbatim>\<open>onProgress(percent)\<close>\<close>
  | Launched string intent_params   \<comment> \<open>\<^verbatim>\<open>IntentLauncher.startActivityAsync(action, params)\<close>\<close>

text \<open>
  The collaborators, over a world \<open>'w\<close> that each call may change: the network, the file
  system of \<^verbatim>\<open>expo-file-system\<close>, the clock, the platform and the intent launcher, and
  \<^verbatim>\<open>UPDATE_CONFIG\<close> (constants/UpdateConfig, which is not part of the sources: its URL and
  its URL builder are parameters; the builder is a pure function of the version). A call
  that rejects or throws returns \<open>Inl\<close>. \<open>downloadAsync\<close> also returns the progress
  reports it made before it settled. A request that the 10 s timer of \<^verbatim>\<open>checkVersion\<close>
  aborts is a \<open>fetch\<close> that rejects.
\<close>

record 'w env =
  GITHUB_RAW_URL :: string
  getDownloadUrl :: "jsval \<Rightarrow> string"
  fetch :: "string \<Rightarrow> 'w \<Rightarrow> (error + response) \<times> 'w"
  documentDirectory :: "string option"
  readDirectoryAsync :: "string \<Rightarrow> 'w \<Rightarrow> (error + string list) \<times> 'w"
  deleteAsync :: "string \<Rightarrow> 'w \<Rightarrow> (error + unit) \<times> 'w"
  date_now :: "'w \<Rightarrow> nat \<times> 'w"
  downloadAsync ::
    "string \<Rightarrow> string \<Rightarrow> 'w \<Rightarrow> (progress list \<times> (error + download_result option)) \<times> 'w"
  getInfoAsync :: "string \<Rightarrow> 'w \<Rightarrow> (error + file_info) \<times> 'w"
  getContentUriAsync :: "string \<Rightarrow> 'w \<Rightarrow> (error + string) \<times> 'w"
  platform_OS :: string
  startActivityAsync :: "string \<Rightarrow> intent_params \<Rightarrow> 'w \<Rightarrow> (error + unit) \<times> 'w"

text \<open>The state of a run: the world and the trace of events so far.\<close>

record 'w state =
  world :: 'w
  trace :: "event list"

text \<open>An asynchronous function, awaited: it returns a value or throws, and changes the state.\<close>

type_synonym ('a, 'w) task = "'w state \<Rightarrow> (error + 'a) \<times> 'w state"

definition succeed :: "'a \<Rightarrow> ('a, 'w) task" where
  "succeed v s = (Inr v, s)"

definition throw :: "error \<Rightarrow> ('a, 'w) task" where
  "throw e s = (Inl e, s)"

definition bind :: "('a, 'w) task \<Rightarrow> ('a \<Rightarrow> ('b, 'w) task) \<Rightarrow> ('b, 'w) task" where
  "bind m f s = (case m s of (Inl e, s') \<Rightarrow> (Inl e, s') | (Inr v, s') \<Rightarrow> f v s')"

definition try_catch :: "('a, 'w) task \<Rightarrow> (error \<Rightarrow> ('a, 'w) task) \<Rightarrow> ('a, 'w) task" where
  "try_catch body handler s =
     (case body s of (Inl e, s') \<Rightarrow> handler e s' | (Inr v, s') \<Rightarrow> (Inr v, s'))"

definition emit :: "event \<Rightarrow> (unit, 'w) task" where
  "emit ev s = (Inr (), s\<lparr>trace := trace s @ [ev]\<rparr>)"

text \<open>A call of a collaborator.\<close>

definition perform :: "('w \<Rightarrow> (error + 'a) \<times> 'w) \<Rightarrow> ('a, 'w) task" where
  "perform call s = (case call (world s) of (r, w) \<Rightarrow> (r, s\<lparr>world := w\<rparr>))"

definition maxRetries :: nat where
  "maxRetries = 3"

section \<open>checkVersion (lines 35-70)\<close>

text \<open>
  \<^verbatim>\<open>remotePackage.version\<close>: a \<^verbatim>\<open>TypeError\<close> on \<^verbatim>\<open>null\<close>; the last member named \<^verbatim>\<open>version\<close> of
  an object; \<^verbatim>\<open>undefined\<close> when the object has none, and for a boolean, a number, a
  string and an array.
\<close>

fun get_version :: "json \<Rightarrow> error + jsval" where
  "get_version JNull = Inl TypeError"
| "get_version (JObject members) =
     Inr (case map_of (rev members) ''version'' of None \<Rightarrow> Undefined | Some v \<Rightarrow> Value v)"
| "get_version j = Inr Undefined"

text \<open>The body of the \<^verbatim>\<open>try\<close>, lines 39-53.\<close>

definition checkVersion_try :: "'w env \<Rightarrow> (VersionInfo, 'w) task" where
  "checkVersion_try env =
     bind (emit (Fetched (GITHUB_RAW_URL env))) (\<lambda>_.
     bind (perform (fetch env (GITHUB_RAW_URL env))) (\<lambda>response.
       if \<not> ok response then throw (Error (''HTTP '' @ show_nat (status response)))
       else
         bind (\<lambda>s. (json_body response, s)) (\<lambda>remotePackage.
         bind (\<lambda>s. (get_version remotePackage, s)) (\<lambda>remoteVersion.
           succeed \<lparr>version = remoteVersion,
                    downloadUrl = getDownloadUrl env remoteVersion\<rparr>))))"

text \<open>The \<^verbatim>\<open>catch\<close>, lines 54-66: \<open>None\<close> when the loop goes on.\<close>

definition checkVersion_catch :: "nat \<Rightarrow> error \<Rightarrow> (VersionInfo option, 'w) task" where
  "checkVersion_catch attempt e =
     bind (emit (Warned (''checkVersion attempt '' @ show_nat attempt @ ''/'' @ show_nat maxRetries) e))
       (\<lambda>_.
       if attempt = maxRetries then
         bind (emit (Toasted CheckFailedToast)) (\<lambda>_. throw e)
       else
         bind (emit (Waited (2000 * attempt))) (\<lambda>_. succeed None))"

function checkVersion_from :: "'w env \<Rightarrow> nat \<Rightarrow> (VersionInfo, 'w) task" where
  "checkVersion_from env attempt s =
     (if attempt \<le> maxRetries then
        bind
          (try_catch (bind (checkVersion_try env) (\<lambda>info. succeed (Some info)))
             (checkVersion_catch attempt))
          (\<lambda>r. case r of
                 Some info \<Rightarrow> succeed info
               | None \<Rightarrow> checkVersion_from env (attempt + 1))
          s
      else throw (Error ''Unexpected'') s)"
  by pat_completeness auto
termination
  by (relation "measure (\<lambda>(env, attempt, s). maxRetries + 1 - attempt)") auto

declare checkVersion_from.simps [simp del]

definition checkVersion :: "'w env \<Rightarrow> (VersionInfo, 'w) task" where
  "checkVersion env = checkVersion_from env 1"

section \<open>cleanOldApkFiles (lines 75-105)\<close>

text \<open>The filter of line 82.\<close>

definition is_apk_file :: "string \<Rightarrow> bool" where
  "is_apk_file name = (startsWith name ''OrionTV_v'' \<and> endsWith name ''.apk'')"

text \<open>\<^verbatim>\<open>parseInt(a.replace(/[^0-9]/g, ''), 10)\<close>, lines 87 and 88.\<close>

definition apk_number :: "string \<Rightarrow> jsnum" where
  "apk_number name = parseInt10 (filter is_digit name)"

text \<open>The comparator of lines 86-90.\<close>

definition newest_first :: "string \<Rightarrow> string \<Rightarrow> jsnum" where
  "newest_first a b = js_sub (apk_number b) (apk_number a)"

text \<open>
  \<^verbatim>\<open>apkFiles.sort(...)\<close>: the comparator is a consistent comparison function when every name
  has a number; when one has none its comparisons are NaN and the order is the engine's.
\<close>

definition sort_apk_files :: "js_engine \<Rightarrow> string list \<Rightarrow> string list" where
  "sort_apk_files js apkFiles =
     (if list_all (\<lambda>name. apk_number name \<noteq> NaN) apkFiles then sort_cmp newest_first apkFiles
      else sort_rest js apkFiles)"

text \<open>The loop of lines 93-101, with its own \<^verbatim>\<open>try\<close> and \<^verbatim>\<open>catch\<close>.\<close>

fun delete_stale :: "'w env \<Rightarrow> string \<Rightarrow> string list \<Rightarrow> (unit, 'w) task" where
  "delete_stale env dirUri [] = succeed ()"
| "delete_stale env dirUri (file # rest) =
     bind
       (try_catch
          (bind (emit (Deleted (dirUri @ file))) (\<lambda>_.
           bind (perform (deleteAsync env (dirUri @ file))) (\<lambda>_.
             emit (Debugged (''Deleted old APK: '' @ file)))))
          (\<lambda>e. emit (Warned (''Failed to delete '' @ file) e)))
       (\<lambda>_. delete_stale env dirUri rest)"

definition cleanOldApkFiles :: "js_engine \<Rightarrow> 'w env \<Rightarrow> (unit, 'w) task" where
  "cleanOldApkFiles js env =
     try_catch
       (case documentDirectory env of
          None \<Rightarrow> throw (Error ''Document directory is not available'')
        | Some dirUri \<Rightarrow>
            if dirUri = [] then throw (Error ''Document directory is not available'')
            else
              bind (emit (Listed dirUri)) (\<lambda>_.
              bind (perform (readDirectoryAsync env dirUri)) (\<lambda>listing.
                let apkFiles = filter is_apk_file listing in
                if length apkFiles \<le> 2 then succeed ()
                else
                  let sorted = sort_apk_files js apkFiles;
                      stale = drop 2 sorted
                  in delete_stale env dirUri stale)))
       (\<lambda>e. emit (Warned ''cleanOldApkFiles error'' e))"

section \<open>downloadApk (lines 110-164)\<close>

text \<open>The progress callback of lines 131-138; \<open>onProgress\<close> is the caller's, if given.\<close>

definition progress_callback ::
  "(jsnum \<Rightarrow> 'w \<Rightarrow> 'w) option \<Rightarrow> progress \<Rightarrow> 'w state \<Rightarrow> 'w state" where
  "progress_callback onProgress p s =
     (case onProgress of
        None \<Rightarrow> s
      | Some callback \<Rightarrow>
          (case totalBytesExpectedToWrite p of
             None \<Rightarrow> s
           | Some expected \<Rightarrow>
               if truthy expected then
                 let percent =
                       js_floor (js_mul (js_div (totalBytesWritten p) expected) (Fin 100))
                 in s\<lparr>world := callback percent (world s),
                      trace := trace s @ [Progressed percent]\<rparr>
               else s))"

text \<open>\<^verbatim>\<open>downloadResumable.downloadAsync()\<close>, with the progress reports of the transfer.\<close>

definition download_transfer ::
  "'w env \<Rightarrow> string \<Rightarrow> string \<Rightarrow> (jsnum \<Rightarrow> 'w \<Rightarrow> 'w) option \<Rightarrow> (download_result option, 'w) task"
  where
  "download_transfer env url fileUri onProgress s =
     (case downloadAsync env url fileUri (world s) of
        ((reports, outcome), w) \<Rightarrow>
          (outcome, foldl (\<lambda>s' p. progress_callback onProgress p s') (s\<lparr>world := w\<rparr>) reports))"

text \<open>\<^verbatim>\<open>result && result.uri\<close>: the URI when the result is an object with a non-empty one.\<close>

definition result_uri :: "download_result option \<Rightarrow> string option" where
  "result_uri result =
     (case result of
        None \<Rightarrow> None
      | Some r \<Rightarrow> (case uri r of None \<Rightarrow> None | Some u \<Rightarrow> if u = [] then None else Some u))"

text \<open>The body of the \<^verbatim>\<open>try\<close>, lines 119-147.\<close>

definition downloadApk_try ::
  "'w env \<Rightarrow> string \<Rightarrow> (jsnum \<Rightarrow> 'w \<Rightarrow> 'w) option \<Rightarrow> (string, 'w) task" where
  "downloadApk_try env url onProgress =
     bind (\<lambda>s. case date_now env (world s) of (t, w) \<Rightarrow> (Inr t, s\<lparr>world := w\<rparr>)) (\<lambda>timestamp.
       let fileName = ''OrionTV_v'' @ show_nat timestamp @ ''.apk'';
           fileUri = (case documentDirectory env of None \<Rightarrow> ''null'' | Some d \<Rightarrow> d) @ fileName
       in
         bind (emit (Downloaded url fileUri)) (\<lambda>_.
         bind (download_transfer env url fileUri onProgress) (\<lambda>result.
           case result_uri result of
             Some u \<Rightarrow> bind (emit (Debugged (''APK downloaded to '' @ u))) (\<lambda>_. succeed u)
           | None \<Rightarrow> throw (Error ''Download failed: No URI available''))))"

text \<open>The \<^verbatim>\<open>catch\<close>, lines 148-160.\<close>

definition downloadApk_catch :: "nat \<Rightarrow> error \<Rightarrow> (string option, 'w) task" where
  "downloadApk_catch attempt e =
     bind (emit (Warned (''downloadApk attempt '' @ show_nat attempt @ ''/'' @ show_nat maxRetries) e))
       (\<lambda>_.
       if attempt = maxRetries then
         bind (emit (Toasted DownloadFailedToast)) (\<lambda>_. throw e)
       else
         bind (emit (Waited (3000 * attempt))) (\<lambda>_. succeed None))"

function downloadApk_from ::
  "'w env \<Rightarrow> string \<Rightarrow> (jsnum \<Rightarrow> 'w \<Rightarrow> 'w) option \<Rightarrow> nat \<Rightarrow> (string, 'w) task" where
  "downloadApk_from env url onProgress attempt s =
     (if attempt \<le> maxRetries then
        bind
          (try_catch (bind (downloadApk_try env url onProgress) (\<lambda>u. succeed (Some u)))
             (downloadApk_catch attempt))
          (\<lambda>r. case r of
                 Some u \<Rightarrow> succeed u
               | None \<Rightarrow> downloadApk_from env url onProgress (attempt + 1))
          s
      else throw (Error ''Download failed'') s)"
  by pat_completeness auto
termination
  by (relation "measure (\<lambda>(env, url, onProgress, attempt, s). maxRetries + 1 - attempt)") auto

declare downloadApk_from.simps [simp del]

definition downloadApk ::
  "js_engine \<Rightarrow> 'w env \<Rightarrow> string \<Rightarrow> (jsnum \<Rightarrow> 'w \<Rightarrow> 'w) option \<Rightarrow> (string, 'w) task" where
  "downloadApk js env url onProgress =
     bind (cleanOldApkFiles js env) (\<lambda>_. downloadApk_from env url onProgress 1)"

section \<open>installApk (lines 169-223)\<close>

definition ANDROID_MIME_TYPE :: string where
  "ANDROID_MIME_TYPE = ''application/vnd.android.package-archive''"

text \<open>The toast of lines 193-211, by the message of the error.\<close>

definition launch_failure_toast :: "error \<Rightarrow> toast" where
  "launch_failure_toast e =
     (case e of
        Error message \<Rightarrow>
          if str_includes message ''Activity not found'' then ActivityNotFoundToast
          else if str_includes message ''permission'' then PermissionToast
          else UnknownErrorToast
      | TypeError \<Rightarrow> UnknownErrorToast)"

definition installApk :: "'w env \<Rightarrow> string \<Rightarrow> (unit, 'w) task" where
  "installApk env fileUri =
     bind (perform (getInfoAsync env fileUri)) (\<lambda>info.
       if \<not> file_exists info then throw (Error (''APK not found at '' @ fileUri))
       else
         bind (perform (getContentUriAsync env fileUri)) (\<lambda>contentUri.
           if platform_OS env = ''android'' then
             try_catch
               (let params = \<lparr>intent_data = contentUri, intent_type = ANDROID_MIME_TYPE,
                              intent_flags = or 1 16\<rparr>
                in bind (emit (Launched ''android.intent.action.VIEW'' params)) (\<lambda>_.
                   perform (startActivityAsync env ''android.intent.action.VIEW'' params)))
               (\<lambda>e. bind (emit (Toasted (launch_failure_toast e))) (\<lambda>_. throw e))
           else
             bind (emit (Toasted UnsupportedToast)) (\<lambda>_.
               throw (Error ''APK install not supported on iOS''))))"

section \<open>Vocabulary of the specification\<close>

text \<open>
  These definitions follow the words of the specification, not the code. A version string
  is a dot-separated sequence of non-negative integers: every piece between the dots is a
  non-empty string of decimal digits. Its components are the integers the pieces denote,
  and a component past the end counts as 0.
\<close>

definition version_string :: "string \<Rightarrow> bool" where
  "version_string v = list_all (\<lambda>p. p \<noteq> [] \<and> list_all is_digit p) (split_dot v)"

definition version_components :: "string \<Rightarrow> nat list" where
  "version_components v = map decimal (split_dot v)"

definition version_component :: "string \<Rightarrow> nat \<Rightarrow> nat" where
  "version_component v i =
     (if i < length (version_components v) then version_components v ! i else 0)"

text \<open>
  An artifact name is the prefix, a timestamp in decimal digits and the extension:
  \<^verbatim>\<open>OrionTV_v<unix-millis-timestamp>.apk\<close>.
\<close>

definition artifact_name :: "string \<Rightarrow> bool" where
  "artifact_name name =
     (startsWith name ''OrionTV_v'' \<and> endsWith name ''.apk'' \<and> 13 < length name
      \<and> list_all is_digit (take (length name - 13) (drop 9 name)))"

text \<open>The timestamp embedded in an artifact name.\<close>

definition artifact_timestamp :: "string \<Rightarrow> nat" where
  "artifact_timestamp name = decimal (take (length name - 13) (drop 9 name))"


section \<open>Auxiliary definitions of the proofs\<close>

text \<open>Natural numbers as number values, and a list of naturals read past its end as 0.\<close>

definition num_list :: "nat list \<Rightarrow> jsnum list" where
  "num_list xs = map (\<lambda>n. Fin (of_nat n)) xs"

definition nat_at :: "nat list \<Rightarrow> nat \<Rightarrow> nat" where
  "nat_at xs i = (if i < length xs then xs ! i else 0)"

text \<open>The paths \<^verbatim>\<open>deleteAsync\<close> was called with, in order.\<close>

fun deletions :: "event list \<Rightarrow> string list" where
  "deletions [] = []"
| "deletions (Deleted p # tr) = p # deletions tr"
| "deletions (ev # tr) = deletions tr"

text \<open>The number values of the natural numbers: the non-negative integers among them, and
  the positive infinity.\<close>

definition nat_double :: "jsnum \<Rightarrow> bool" where
  "nat_double x = (x = PosInf \<or> (\<exists>k::nat. x = Fin (of_nat k)))"

text \<open>A file name with a number, and the order of the names by their numbers.\<close>

definition numbered :: "string \<Rightarrow> bool" where
  "numbered name = (apk_number name \<noteq> NaN)"

definition not_older :: "string \<Rightarrow> string \<Rightarrow> bool" where
  "not_older a b = (\<not> js_lt (apk_number a) (apk_number b))"

text \<open>The delays waited for, in order, and the number of requests made.\<close>

fun waits :: "event list \<Rightarrow> nat list" where
  "waits [] = []"
| "waits (Waited ms # tr) = ms # waits tr"
| "waits (ev # tr) = waits tr"

fun fetches :: "event list \<Rightarrow> nat" where
  "fetches [] = 0"
| "fetches (Fetched url # tr) = Suc (fetches tr)"
| "fetches (ev # tr) = fetches tr"

text \<open>The percentages the caller's progress callback received, in order.\<close>

fun progressed :: "event list \<Rightarrow> jsnum list" where
  "progressed [] = []"
| "progressed (Progressed percent # tr) = percent # progressed tr"
| "progressed (ev # tr) = progressed tr"



section \<open>Example worlds\<close>

text \<open>
  An engine for which every other string is NaN and that sorts by insertion whatever the
  comparator answers.
\<close>

definition example_engine :: js_engine where
  "example_engine = \<lparr>number_rest = (\<lambda>s. NaN), sort_rest = sort_cmp newest_first\<rparr>"

text \<open>
  A world where nothing works: the network is down, there is no document directory, no
  file can be deleted and no file exists. The world is a counter of the calls of \<open>fetch\<close>
  and of the clock.
\<close>

definition offline_env :: "nat env" where
  "offline_env =
     \<lparr>GITHUB_RAW_URL = ''https://example.invalid/package.json'',
      getDownloadUrl = (\<lambda>v. ''https://example.invalid/orionTV.apk''),
      fetch = (\<lambda>url w. (Inl (Error ''offline''), Suc w)),
      documentDirectory = None,
      readDirectoryAsync = (\<lambda>dir w. (Inl (Error ''no directory''), w)),
      deleteAsync = (\<lambda>path w. (Inl (Error ''cannot delete''), w)),
      date_now = (\<lambda>w. (w, Suc w)),
      downloadAsync = (\<lambda>url fileUri w. (([], Inl (Error ''offline'')), w)),
      getInfoAsync = (\<lambda>fileUri w. (Inr \<lparr>file_exists = False\<rparr>, w)),
      getContentUriAsync = (\<lambda>fileUri w. (Inr fileUri, w)),
      platform_OS = ''android'',
      startActivityAsync = (\<lambda>action params w. (Inr (), w))\<rparr>"

text \<open>The same with a document directory that lists the given names.\<close>

definition directory_env :: "string list \<Rightarrow> nat env" where
  "directory_env listing =
     offline_env\<lparr>documentDirectory := Some ''file:///files/'',
                 readDirectoryAsync := (\<lambda>dir w. (Inr listing, w))\<rparr>"

definition initial :: "nat state" where
  "initial = \<lparr>world = 0, trace = []\<rparr>"

text \<open>Two downloaded artifacts and a release file named by its version.\<close>

definition release_listing :: "string list" where
  "release_listing =
     [''OrionTV_v1700000000001.apk'', ''OrionTV_v1.2.0.apk'', ''OrionTV_v1700000000002.apk'']"

text \<open>Five artifacts with distinct timestamps, not in order, and another file.\<close>

definition five_listing :: "string list" where
  "five_listing =
     [''OrionTV_v1700000000003.apk'', ''notes.txt'', ''OrionTV_v1700000000005.apk'',
      ''OrionTV_v1700000000001.apk'', ''OrionTV_v1700000000004.apk'',
      ''OrionTV_v1700000000002.apk'']"

text \<open>One artifact name without a timestamp and two with one.\<close>

definition unnumbered_listing :: "string list" where
  "unnumbered_listing =
     [''OrionTV_v.apk'', ''OrionTV_v1700000000001.apk'', ''OrionTV_v1700000000002.apk'']"

text \<open>The network answers the second request only, with a manifest.\<close>

definition second_try_env :: "nat env" where
  "second_try_env =
     offline_env\<lparr>fetch := (\<lambda>url w.
       (if w = 1 then
          Inr \<lparr>ok = True, status = 200,
               json_body = Inr (JObject [(''name'', JString ''OrionTV''), (''version'', JString ''1.3.0'')])\<rparr>
        else Inl (Error ''offline''), Suc w))\<rparr>"

text \<open>The network answers every request with the given JSON document.\<close>

definition manifest_env :: "json \<Rightarrow> nat env" where
  "manifest_env body =
     offline_env\<lparr>fetch := (\<lambda>url w. (Inr \<lparr>ok = True, status = 200, json_body = Inr body\<rparr>, Suc w))\<rparr>"

text \<open>
  The network fails the first \<open>n\<close> requests and answers the later ones with the given JSON
  document; the URL builder names the version it is given.
\<close>

definition late_manifest_env :: "nat \<Rightarrow> json \<Rightarrow> nat env" where
  "late_manifest_env n body =
     offline_env\<lparr>
       getDownloadUrl := (\<lambda>v. ''https://example.invalid/v'' @
          (case v of Undefined \<Rightarrow> ''undefined'' | Value (JString x) \<Rightarrow> x | Value j \<Rightarrow> ''?'')
          @ ''/orionTV.apk''),
       fetch := (\<lambda>url w.
         (if n \<le> w then Inr \<lparr>ok = True, status = 200, json_body = Inr body\<rparr>
          else Inl (Error ''offline''), Suc w))\<rparr>"

text \<open>Every transfer resolves to a result without a URI.\<close>

definition no_uri_env :: "nat env" where
  "no_uri_env =
     offline_env\<lparr>downloadAsync := (\<lambda>url fileUri w. (([], Inr (Some \<lparr>uri = None\<rparr>)), w))\<rparr>"




chapter \<open>Properties\<close>

section \<open>Rounding\<close>

lemma pow2_power_int: "pow2 e = power_int 2 e"
  by (simp add: pow2_def power_int_def field_simps)

lemma pow2_pos [simp]: "0 < pow2 e"
  by (simp add: pow2_def)

lemma pow2_add: "pow2 (a + b) = pow2 a * pow2 b"
  by (simp add: pow2_power_int power_int_add)

lemma pow2_mono: "a \<le> b \<Longrightarrow> pow2 a \<le> pow2 b"
  by (simp add: pow2_power_int power_int_increasing)

lemma pow2_strict_mono: "a < b \<Longrightarrow> pow2 a < pow2 b"
  by (simp add: pow2_power_int power_int_strict_increasing)


lemma bitlen_pos: "0 < n \<Longrightarrow> 0 < bitlen n"
  using bitlen_bounds [of n] by (cases "0 < bitlen n") auto

lemma floor_log2_bounds:
  assumes "0 < q"
  shows "pow2 (floor_log2 q) \<le> q \<and> q < pow2 (floor_log2 q + 1)"
proof (cases "1 \<le> q")
  case True
  define n where "n = \<lfloor>q\<rfloor>"
  have n: "0 < n" using True by (simp add: n_def)
  from bitlen_bounds [OF n] have b: "2 ^ nat (bitlen n - 1) \<le> n" "n < 2 ^ nat (bitlen n)" by auto
  have bl: "0 < bitlen n" using n by (rule bitlen_pos)
  have "pow2 (bitlen n - 1) = of_int (2 ^ nat (bitlen n - 1))"
    using bl by (simp add: pow2_def)
  also have "\<dots> \<le> of_int n" using b(1) by (simp only: of_int_le_iff)
  also have "\<dots> \<le> q" by (simp add: n_def)
  finally have lo: "pow2 (bitlen n - 1) \<le> q" .
  have "n + 1 \<le> 2 ^ nat (bitlen n)" using b(2) by simp
  then have "(of_int (n + 1) :: rat) \<le> of_int (2 ^ nat (bitlen n))" by (simp only: of_int_le_iff)
  moreover have "q < of_int (n + 1)" using floor_correct [of q] by (simp add: n_def)
  ultimately have "q < of_int (2 ^ nat (bitlen n))" by linarith
  also have "\<dots> = pow2 (bitlen n)" using bl by (simp add: pow2_def)
  finally have hi: "q < pow2 (bitlen n - 1 + 1)" by simp
  show ?thesis using True lo hi by (simp add: floor_log2_def n_def)
next
  case False
  define y where "y = 1 / q"
  have y: "1 < y" using False assms by (simp add: y_def)
  define m where "m = \<lceil>y\<rceil> - 1"
  have m: "0 < m" using y by (simp add: m_def less_ceiling_iff)
  from bitlen_bounds [OF m] have b: "2 ^ nat (bitlen m - 1) \<le> m" "m < 2 ^ nat (bitlen m)" by auto
  have bl: "0 < bitlen m" using m by (rule bitlen_pos)
  have qy: "q = 1 / y" using assms by (simp add: y_def)
  have "y \<le> of_int (m + 1)" using ceiling_correct [of y] by (simp add: m_def)
  also have "(of_int (m + 1) :: rat) \<le> of_int (2 ^ nat (bitlen m))"
    using b(2) by (simp only: of_int_le_iff)
  finally have "y \<le> 2 ^ nat (bitlen m)" by simp
  then have lo: "pow2 (- bitlen m) \<le> q"
    using bl y by (simp add: pow2_def qy field_simps)
  have "(of_int (2 ^ nat (bitlen m - 1)) :: rat) \<le> of_int m" using b(1) by (simp only: of_int_le_iff)
  also have "of_int m < y" using ceiling_correct [of y] by (simp add: m_def)
  finally have ylt: "2 ^ nat (bitlen m - 1) < y" by simp
  have hi: "q < pow2 (- bitlen m + 1)"
  proof (cases "bitlen m = 1")
    case True
    then show ?thesis using False by (simp add: pow2_def)
  next
    case F: False
    then have "\<not> 0 \<le> - bitlen m + 1" using bl by simp
    moreover have "nat (- (- bitlen m + 1)) = nat (bitlen m - 1)" by simp
    ultimately show ?thesis using ylt y by (simp add: pow2_def qy field_simps)
  qed
  show ?thesis using False lo hi by (simp add: floor_log2_def y_def m_def)
qed

lemma floor_log2_eqI:
  assumes "pow2 k \<le> q" "q < pow2 (k + 1)"
  shows "floor_log2 q = k"
proof -
  have q: "0 < q" using assms(1) pow2_pos [of k] by linarith
  from floor_log2_bounds [OF q] have b: "pow2 (floor_log2 q) \<le> q" "q < pow2 (floor_log2 q + 1)" by auto
  have "\<not> floor_log2 q + 1 \<le> k"
    using pow2_mono [of "floor_log2 q + 1" k] b(2) assms(1) by linarith
  moreover have "\<not> k + 1 \<le> floor_log2 q"
    using pow2_mono [of "k + 1" "floor_log2 q"] b(1) assms(2) by linarith
  ultimately show ?thesis by linarith
qed

lemma round_half_even_of_int [simp]: "round_half_even (of_int k) = k"
  by (simp add: round_half_even_def)

lemma round_half_even_ge_floor: "\<lfloor>x\<rfloor> \<le> round_half_even x"
  by (simp add: round_half_even_def Let_def)

lemma to_double_pos_eval:
  assumes lo: "pow2 (e + 52) \<le> q" and hi: "q < pow2 (e + 53)" and e: "- 1074 \<le> e"
    and v: "v = of_int (round_half_even (q / pow2 e)) * pow2 e" and fin: "v < 2 ^ 1024"
  shows "to_double q = Fin v"
proof -
  have q: "0 < q" using lo pow2_pos [of "e + 52"] by linarith
  have fl: "floor_log2 q = e + 52"
    using lo hi by (intro floor_log2_eqI) (simp_all add: add.commute add.left_commute)
  have ex: "max (floor_log2 \<bar>q\<bar> - 52) (- 1074) = e" using q fl e by simp
  have "pow2 52 * pow2 e \<le> q" using lo by (simp add: pow2_add mult.commute)
  then have "pow2 52 \<le> q / pow2 e" by (simp add: field_simps)
  moreover have "(1::rat) \<le> pow2 52" by (simp add: pow2_def)
  ultimately have "(1::rat) \<le> q / pow2 e" by linarith
  then have "1 \<le> \<lfloor>q / pow2 e\<rfloor>" by (simp add: le_floor_iff)
  then have "0 < round_half_even (q / pow2 e)"
    using round_half_even_ge_floor [of "q / pow2 e"] by linarith
  then have "0 < v" by (simp add: v)
  then show ?thesis
    using q fin ex v by (simp add: to_double_def Let_def)
qed

lemma to_double_nat_exact:
  assumes "n \<le> 2 ^ 53"
  shows "to_double (of_nat n) = Fin (of_nat n)"
proof (cases "n = 0")
  case True
  then show ?thesis by (simp add: to_double_def)
next
  case False
  define q :: rat where "q = of_nat n"
  define L where "L = floor_log2 q"
  have q1: "1 \<le> q" using False by (simp add: q_def)
  have q53: "q \<le> 2 ^ 53" using assms unfolding q_def
    by (metis of_nat_le_iff of_nat_numeral of_nat_power)
  from floor_log2_bounds [of q] q1
  have b: "pow2 L \<le> q" "q < pow2 (L + 1)" by (auto simp: L_def)
  have L0: "0 \<le> L"
  proof (rule ccontr)
    assume "\<not> 0 \<le> L"
    then have "pow2 (L + 1) \<le> pow2 0" by (intro pow2_mono) simp
    then show False using b(2) q1 by (simp add: pow2_def)
  qed
  have L53: "L \<le> 53"
  proof (rule ccontr)
    assume "\<not> L \<le> 53"
    then have "pow2 54 \<le> pow2 L" by (intro pow2_mono) simp
    then show False using b(1) q53 by (simp add: pow2_def)
  qed
  have "of_int (round_half_even (q / pow2 (L - 52))) * pow2 (L - 52) = q"
  proof (cases "L = 53")
    case True
    then have "pow2 53 \<le> q" using b(1) by simp
    then have "q = 2 ^ 53" using q53 by (simp add: pow2_def)
    then have "q / pow2 (L - 52) = of_int (2 ^ 52)" using True by (simp add: pow2_def)
    then have "round_half_even (q / pow2 (L - 52)) = 2 ^ 52"
      by (simp only: round_half_even_of_int)
    then show ?thesis using True \<open>q = 2 ^ 53\<close> by (simp add: pow2_def)
  next
    case F: False
    then have le: "L \<le> 52" using L53 by simp
    then have "q / pow2 (L - 52) = of_int (int n * 2 ^ nat (52 - L))"
      by (simp add: pow2_def q_def)
    then have "round_half_even (q / pow2 (L - 52)) = int n * 2 ^ nat (52 - L)"
      by (simp only: round_half_even_of_int)
    then show ?thesis using le by (simp add: pow2_def q_def)
  qed
  moreover have "q < 2 ^ 1024" using q53 by simp
  moreover have "pow2 (L - 52 + 52) \<le> q" "q < pow2 (L - 52 + 53)" using b by (simp_all add: add.commute)
  ultimately have "to_double q = Fin q"
    using L0 by (intro to_double_pos_eval [where e = "L - 52"]) simp_all
  then show ?thesis by (simp add: q_def)
qed

lemma floor_rat_numeral [simp]:
  "\<lfloor>numeral a / numeral b :: rat\<rfloor> = numeral a div numeral b"
  using floor_divide_of_int_eq [of "numeral a" "numeral b", where ?'a = rat] by simp

lemma floor_rat_neg_numeral [simp]:
  "\<lfloor>- (numeral a / numeral b) :: rat\<rfloor> = - numeral a div numeral b"
  using floor_divide_of_int_eq [of "- numeral a" "numeral b", where ?'a = rat] by simp

lemma to_double_numeral:
  "numeral k \<le> (2 :: nat) ^ 53 \<Longrightarrow> to_double (numeral k) = Fin (numeral k)"
  using to_double_nat_exact [of "numeral k"] by simp

lemma to_double_0: "to_double 0 = Fin 0"
  by (simp add: to_double_def)

lemma to_double_1: "to_double 1 = Fin 1"
  using to_double_nat_exact [of 1] by simp

lemma js_lt_asym: "js_lt x y \<Longrightarrow> \<not> js_lt y x"
  by (cases x; cases y) auto

lemma js_lt_irrefl [simp]: "\<not> js_lt x x"
  by (cases x) auto

lemma compare_from_range: "compare_from p1 p2 i \<in> {- 1, 0, 1}"
proof (induction p1 p2 i rule: compare_from.induct)
  case (1 p1 p2 i)
  then show ?case by (subst compare_from.simps) auto
qed

lemma compare_from_swap: "compare_from p1 p2 i = - compare_from p2 p1 i"
proof (induction p1 p2 i rule: compare_from.induct)
  case (1 p1 p2 i)
  show ?case
  proof (cases "i < max (length p1) (length p2)")
    case True
    then have T': "i < max (length p2) (length p1)" by (simp add: max.commute)
    show ?thesis
      using True T' "1.IH" js_lt_asym [of "component p1 i" "component p2 i"]
        js_lt_asym [of "component p2 i" "component p1 i"]
      by (subst compare_from.simps, subst (2) compare_from.simps) (auto simp: js_gt_def)
  next
    case False
    then have F': "\<not> i < max (length p2) (length p1)" by (simp add: max.commute)
    show ?thesis using False F'
      by (subst compare_from.simps, subst (2) compare_from.simps) simp
  qed
qed

lemma compare_from_refl: "compare_from p p i = 0"
  using compare_from_swap [of p p i] by simp

lemma first_diff_step:
  fixes f g :: "nat \<Rightarrow> nat"
  shows "(\<exists>k\<ge>i. R (f k) (g k) \<and> (\<forall>j. i \<le> j \<and> j < k \<longrightarrow> f j = g j))
     \<longleftrightarrow> (R (f i) (g i) \<or> (f i = g i \<and> (\<exists>k\<ge>Suc i. R (f k) (g k) \<and> (\<forall>j. Suc i \<le> j \<and> j < k \<longrightarrow> f j = g j))))"
  (is "?L \<longleftrightarrow> ?R")
proof
  assume ?L
  then obtain k where k: "i \<le> k" "R (f k) (g k)" "\<forall>j. i \<le> j \<and> j < k \<longrightarrow> f j = g j" by blast
  show ?R
  proof (cases "k = i")
    case True
    then show ?thesis using k by simp
  next
    case False
    then have "Suc i \<le> k" "i < k" using k(1) by simp_all
    then show ?thesis using k by (metis Suc_leD order_refl)
  qed
next
  assume ?R
  then show ?L
  proof
    assume "R (f i) (g i)"
    then show ?L by (intro exI [of _ i]) simp
  next
    assume r: "f i = g i \<and> (\<exists>k\<ge>Suc i. R (f k) (g k) \<and> (\<forall>j. Suc i \<le> j \<and> j < k \<longrightarrow> f j = g j))"
    then obtain k where k: "Suc i \<le> k" "R (f k) (g k)" "\<forall>j. Suc i \<le> j \<and> j < k \<longrightarrow> f j = g j" by blast
    have "\<forall>j. i \<le> j \<and> j < k \<longrightarrow> f j = g j"
    proof (intro allI impI)
      fix j assume "i \<le> j \<and> j < k"
      then show "f j = g j" using r k(3) by (cases "j = i") auto
    qed
    then show ?L using k by (intro exI [of _ k]) simp
  qed
qed

lemma all_eq_step:
  fixes f g :: "nat \<Rightarrow> nat"
  shows "(\<forall>k\<ge>i. f k = g k) \<longleftrightarrow> f i = g i \<and> (\<forall>k\<ge>Suc i. f k = g k)"
  by (metis Suc_leD Suc_leI le_neq_implies_less order_refl)

lemma component_num_list: "component (num_list xs) i = Fin (of_nat (nat_at xs i))"
  by (simp add: component_def num_list_def nat_at_def)

lemma length_num_list [simp]: "length (num_list xs) = length xs"
  by (simp add: num_list_def)

lemma compare_from_num_list_step:
  "compare_from (num_list xs) (num_list ys) i =
     (if i < max (length xs) (length ys) then
        (if nat_at ys i < nat_at xs i then 1
         else if nat_at xs i < nat_at ys i then - 1
         else compare_from (num_list xs) (num_list ys) (Suc i))
      else 0)"
  by (subst compare_from.simps) (auto simp: component_num_list js_gt_def)

lemma compare_from_num_list:
  "(compare_from (num_list xs) (num_list ys) i = 1 \<longleftrightarrow>
      (\<exists>k\<ge>i. nat_at ys k < nat_at xs k \<and> (\<forall>j. i \<le> j \<and> j < k \<longrightarrow> nat_at xs j = nat_at ys j)))
   \<and> (compare_from (num_list xs) (num_list ys) i = - 1 \<longleftrightarrow>
      (\<exists>k\<ge>i. nat_at xs k < nat_at ys k \<and> (\<forall>j. i \<le> j \<and> j < k \<longrightarrow> nat_at xs j = nat_at ys j)))
   \<and> (compare_from (num_list xs) (num_list ys) i = 0 \<longleftrightarrow>
      (\<forall>k\<ge>i. nat_at xs k = nat_at ys k))"
proof (induction "max (length xs) (length ys) - i" arbitrary: i)
  case 0
  then have e: "\<not> i < max (length xs) (length ys)" by linarith
  then have z: "\<And>k. i \<le> k \<Longrightarrow> nat_at xs k = 0 \<and> nat_at ys k = 0"
    by (auto simp: nat_at_def)
  have c: "compare_from (num_list xs) (num_list ys) i = 0"
    using e by (subst compare_from_num_list_step) simp
  show ?case unfolding c using z by auto
next
  case (Suc n)
  then have lt: "i < max (length xs) (length ys)" by linarith
  have n: "n = max (length xs) (length ys) - Suc i" using Suc(2) by linarith
  note IH = Suc(1) [OF n]
  note gt = first_diff_step [of i "\<lambda>a b. b < a" "nat_at xs" "nat_at ys"]
  note ls = first_diff_step [of i "\<lambda>a b. a < b" "nat_at xs" "nat_at ys"]
  note eq = all_eq_step [of i "nat_at xs" "nat_at ys"]
  consider (G) "nat_at ys i < nat_at xs i" | (L) "nat_at xs i < nat_at ys i"
    | (E) "nat_at xs i = nat_at ys i" by linarith
  then show ?case
  proof cases
    case G
    then have c: "compare_from (num_list xs) (num_list ys) i = 1"
      using lt by (subst compare_from_num_list_step) simp
    show ?thesis unfolding c gt ls eq using G by simp
  next
    case L
    then have c: "compare_from (num_list xs) (num_list ys) i = - 1"
      using lt by (subst compare_from_num_list_step) simp
    show ?thesis unfolding c gt ls eq using L by simp
  next
    case E
    then have c: "compare_from (num_list xs) (num_list ys) i = compare_from (num_list xs) (num_list ys) (Suc i)"
      using lt by (subst compare_from_num_list_step) simp
    show ?thesis unfolding c gt ls eq using E IH by simp
  qed
qed

lemma Number_digits:
  "p \<noteq> [] \<Longrightarrow> list_all is_digit p \<Longrightarrow> decimal p \<le> 2 ^ 53 \<Longrightarrow> Number js p = Fin (of_nat (decimal p))"
  by (simp add: Number_def to_double_nat_exact)

lemma Number_version:
  assumes "version_string v" "list_all (\<lambda>n. n \<le> 2 ^ 53) (version_components v)"
  shows "map (Number js) (split_dot v) = num_list (version_components v)"
  using assms
  by (auto simp: version_string_def version_components_def num_list_def list_all_iff
      intro!: Number_digits)

lemmas version_eval =
  compareVersions_def Number_def is_digit_def decimal_def digit_value_def
  to_double_numeral to_double_0 to_double_1 compare_from.simps component_def js_gt_def
  version_string_def version_components_def version_component_def

lemma to_double_2_53_plus_1: "to_double 9007199254740993 = Fin 9007199254740992"
  by (rule to_double_pos_eval [where e = 1]) (simp_all add: pow2_def round_half_even_def Let_def)

section \<open>Version comparison\<close>

text \<open>
  C9. For every pair of strings, whatever their components parse to (NaN included),
  \<open>compareVersions\<close> returns (the loop is a total function) a value among -1, 0 and 1, the
  result for the swapped arguments is the negated result, and a string compares equal to
  itself.
\<close>

theorem compareVersions_total_antisymmetric:
  "compareVersions js a b \<in> {- 1, 0, 1}
   \<and> compareVersions js a b = - compareVersions js b a
   \<and> compareVersions js a a = 0"
  unfolding compareVersions_def
  using compare_from_range compare_from_swap compare_from_refl by blast

theorem compareVersions_total_antisymmetric_witness:
  "compareVersions example_engine ''1.x.3'' ''1.2'' = 1
   \<and> compareVersions example_engine ''1.2'' ''1.x.3'' = - 1
   \<and> compareVersions example_engine ''1.x.3'' ''1.x.3'' = 0"
proof -
  have "compareVersions example_engine ''1.x.3'' ''1.2'' = 1"
    by (simp add: version_eval example_engine_def)
  then show ?thesis
    using compareVersions_total_antisymmetric [of example_engine "''1.x.3''" "''1.2''"]
      compareVersions_total_antisymmetric [of example_engine "''1.x.3''" "''1.x.3''"]
    by simp
qed

text \<open>
  C4. \<open>isUpdateAvailable\<close> holds of a remote version exactly when \<open>compareVersions\<close> of it and
  the current version is greater than 0, that is, when it is 1.
\<close>

theorem isUpdateAvailable_iff:
  "isUpdateAvailable js currentVersion v = (compareVersions js v currentVersion > 0)
   \<and> (isUpdateAvailable js currentVersion v \<longleftrightarrow> compareVersions js v currentVersion = 1)"
proof -
  have "compareVersions js v currentVersion \<in> {- 1, 0, 1}"
    unfolding compareVersions_def by (rule compare_from_range)
  then show ?thesis by (auto simp: isUpdateAvailable_def)
qed

theorem isUpdateAvailable_iff_witness:
  "isUpdateAvailable example_engine ''1.9.9'' ''1.10.0''
   \<and> \<not> isUpdateAvailable example_engine ''1.10.0'' ''1.9.9''"
proof -
  have "compareVersions example_engine ''1.10.0'' ''1.9.9'' = 1"
    by (simp add: version_eval)
  moreover have "compareVersions example_engine ''1.9.9'' ''1.10.0'' = - 1"
    by (simp add: version_eval)
  ultimately show ?thesis
    using isUpdateAvailable_iff [of example_engine "''1.9.9''" "''1.10.0''"]
      isUpdateAvailable_iff [of example_engine "''1.10.0''" "''1.9.9''"]
    by simp
qed

text \<open>
  C1, as stated, fails: a component above \<open>2\<^sup>5\<^sup>3\<close> is not parsed as the integer it denotes
  but rounded to binary64. The first component of \<^verbatim>\<open>9007199254740993\<close> exceeds that of
  \<^verbatim>\<open>9007199254740992\<close>, and the result is 0, not 1.
\<close>

theorem compareVersions_rounds_counterexample:
  "version_string ''9007199254740993'' \<and> version_string ''9007199254740992''
   \<and> version_component ''9007199254740992'' 0 < version_component ''9007199254740993'' 0
   \<and> compareVersions example_engine ''9007199254740993'' ''9007199254740992'' = 0"
  by (simp add: version_eval to_double_2_53_plus_1)

text \<open>
  C1, amended. For every pair of version strings whose components are at most \<open>2\<^sup>5\<^sup>3\<close>
  (9007199254740992): \<open>compareVersions a b\<close> is 1 exactly when at the first index where
  the components differ that of \<open>a\<close> exceeds that of \<open>b\<close>, -1 exactly when it is less there,
  and 0 exactly when all components are equal, a missing component counting as 0. In
  particular the four examples of the specification hold.
\<close>

theorem compareVersions_first_difference:
  assumes "version_string a" and "version_string b"
    and "list_all (\<lambda>n. n \<le> 2 ^ 53) (version_components a @ version_components b)"
  shows "(compareVersions js a b = 1 \<longleftrightarrow>
            (\<exists>i. version_component b i < version_component a i
                 \<and> (\<forall>j<i. version_component a j = version_component b j)))
       \<and> (compareVersions js a b = - 1 \<longleftrightarrow>
            (\<exists>i. version_component a i < version_component b i
                 \<and> (\<forall>j<i. version_component a j = version_component b j)))
       \<and> (compareVersions js a b = 0 \<longleftrightarrow>
            (\<forall>i. version_component a i = version_component b i))
       \<and> compareVersions js ''1.2.0'' ''1.2'' = 0
       \<and> compareVersions js ''1.10.0'' ''1.9.9'' = 1
       \<and> compareVersions js ''1.2'' ''1.2.1'' = - 1
       \<and> compareVersions js ''0.0.0'' ''0'' = 0"
proof -
  have a: "map (Number js) (split_dot a) = num_list (version_components a)"
    using assms by (intro Number_version) simp_all
  have b: "map (Number js) (split_dot b) = num_list (version_components b)"
    using assms by (intro Number_version) simp_all
  have c: "version_component v i = nat_at (version_components v) i" for v i
    by (simp add: version_component_def nat_at_def)
  have general:
    "(compareVersions js a b = 1 \<longleftrightarrow>
            (\<exists>i. version_component b i < version_component a i
                 \<and> (\<forall>j<i. version_component a j = version_component b j)))
       \<and> (compareVersions js a b = - 1 \<longleftrightarrow>
            (\<exists>i. version_component a i < version_component b i
                 \<and> (\<forall>j<i. version_component a j = version_component b j)))
       \<and> (compareVersions js a b = 0 \<longleftrightarrow>
            (\<forall>i. version_component a i = version_component b i))"
    using compare_from_num_list [of "version_components a" "version_components b" 0]
    unfolding compareVersions_def a b c by simp
  have e1: "compareVersions js ''1.2.0'' ''1.2'' = 0" by (simp add: version_eval)
  have e2: "compareVersions js ''1.10.0'' ''1.9.9'' = 1" by (simp add: version_eval)
  have e3: "compareVersions js ''1.2'' ''1.2.1'' = - 1" by (simp add: version_eval)
  have e4: "compareVersions js ''0.0.0'' ''0'' = 0" by (simp add: version_eval)
  show ?thesis using general e1 e2 e3 e4 by blast
qed

theorem compareVersions_first_difference_witness:
  "version_string ''1.10.0'' \<and> version_string ''1.9.9''
   \<and> list_all (\<lambda>n. n \<le> 2 ^ 53) (version_components ''1.10.0'' @ version_components ''1.9.9'')
   \<and> compareVersions example_engine ''1.10.0'' ''1.9.9'' = 1
   \<and> (\<exists>i. version_component ''1.9.9'' i < version_component ''1.10.0'' i
          \<and> (\<forall>j<i. version_component ''1.10.0'' j = version_component ''1.9.9'' j))"
proof -
  have h1: "version_string ''1.10.0''" by (simp add: version_eval)
  have h2: "version_string ''1.9.9''" by (simp add: version_eval)
  have h3: "list_all (\<lambda>n. n \<le> 2 ^ 53) (version_components ''1.10.0'' @ version_components ''1.9.9'')"
    by (simp add: version_eval)
  show ?thesis
    using compareVersions_first_difference [OF h1 h2 h3, of example_engine] h1 h2 h3 by blast
qed

section \<open>Cleanup of old package files\<close>

lemmas task_defs = succeed_def throw_def bind_def try_catch_def emit_def perform_def

lemma deletions_append [simp]: "deletions (xs @ ys) = deletions xs @ deletions ys"
  by (induction xs rule: deletions.induct) simp_all

lemma delete_stale_returns:
  "\<exists>s'. delete_stale env dirUri files s = (Inr (), s')
        \<and> deletions (trace s') = deletions (trace s) @ map (\<lambda>file. dirUri @ file) files"
proof (induction files arbitrary: s)
  case Nil
  then show ?case by (simp add: task_defs)
next
  case (Cons f rest)
  obtain r w where d: "deleteAsync env (dirUri @ f) (world s) = (r, w)"
    by (cases "deleteAsync env (dirUri @ f) (world s)")
  define s1 where "s1 = (case r of
      Inl e \<Rightarrow> s\<lparr>trace := trace s @ [Deleted (dirUri @ f)], world := w,
                 trace := trace s @ [Deleted (dirUri @ f), Warned (''Failed to delete '' @ f) e]\<rparr>
    | Inr u \<Rightarrow> s\<lparr>trace := trace s @ [Deleted (dirUri @ f)], world := w,
                 trace := trace s @ [Deleted (dirUri @ f), Debugged (''Deleted old APK: '' @ f)]\<rparr>)"
  have step: "delete_stale env dirUri (f # rest) s = delete_stale env dirUri rest s1"
    using d by (cases r) (simp_all add: task_defs s1_def)
  have tr: "deletions (trace s1) = deletions (trace s) @ [dirUri @ f]"
    by (cases r) (simp_all add: s1_def)
  from Cons.IH [of s1] show ?case unfolding step tr by simp
qed

lemma cleanOldApkFiles_returns: "fst (cleanOldApkFiles js env s) = Inr ()"
proof -
  have "fst (delete_stale env d files t) = Inr ()" for d files and t :: "'a state"
    using delete_stale_returns [of env d files t] by auto
  then show ?thesis
    by (auto simp: cleanOldApkFiles_def task_defs Let_def split: option.splits prod.splits sum.splits)
qed

lemma floor_log2_nonneg: "1 \<le> q \<Longrightarrow> 0 \<le> floor_log2 q"
proof (rule ccontr)
  assume q: "1 \<le> q" and "\<not> 0 \<le> floor_log2 q"
  then have "pow2 (floor_log2 q + 1) \<le> pow2 0" by (intro pow2_mono) simp
  moreover have "q < pow2 (floor_log2 q + 1)" using floor_log2_bounds [of q] q by simp
  ultimately show False using q by (simp add: pow2_def)
qed

lemma to_double_ge_1:
  assumes q: "1 \<le> q"
  defines "e \<equiv> floor_log2 q - 52"
  defines "v \<equiv> of_int (round_half_even (q / pow2 e)) * pow2 e"
  shows "to_double q = (if 2 ^ 1024 \<le> v then PosInf else Fin v)"
    and "to_double (- q) = (if 2 ^ 1024 \<le> v then NegInf else Fin (- v))"
    and "0 < v" and "1 \<le> round_half_even (q / pow2 e)"
proof -
  have L: "0 \<le> floor_log2 q" using q by (rule floor_log2_nonneg)
  then have ex: "max (floor_log2 q - 52) (- 1074) = e" by (simp add: e_def)
  have "pow2 (e + 52) \<le> q" using floor_log2_bounds [of q] q by (simp add: e_def)
  then have "pow2 52 * pow2 e \<le> q" by (simp add: pow2_add mult.commute)
  then have "pow2 52 \<le> q / pow2 e" by (simp add: field_simps)
  moreover have "(1::rat) \<le> pow2 52" by (simp add: pow2_def)
  ultimately have "(1::rat) \<le> q / pow2 e" by linarith
  then have "1 \<le> \<lfloor>q / pow2 e\<rfloor>" by (simp add: le_floor_iff)
  then show m: "1 \<le> round_half_even (q / pow2 e)"
    using round_half_even_ge_floor [of "q / pow2 e"] by linarith
  then show v: "0 < v" by (simp add: v_def)
  have a: "\<bar>q\<bar> = q" "\<bar>- q\<bar> = q" using q by simp_all
  show "to_double q = (if 2 ^ 1024 \<le> v then PosInf else Fin v)"
    using q v unfolding to_double_def a Let_def ex v_def [symmetric] by simp
  show "to_double (- q) = (if 2 ^ 1024 \<le> v then NegInf else Fin (- v))"
    using q v unfolding to_double_def a Let_def ex v_def [symmetric] by simp
qed

lemma to_double_sign:
  assumes "1 \<le> \<bar>q\<bar>"
  shows "js_lt (Fin 0) (to_double q) \<longleftrightarrow> 0 < q"
proof (cases "0 < q")
  case True
  then have "1 \<le> q" using assms by simp
  from to_double_ge_1(1,3) [OF this] True show ?thesis by (auto split: if_splits)
next
  case False
  then have "1 \<le> - q" using assms by simp
  from to_double_ge_1(2,3) [OF this] False show ?thesis by (auto split: if_splits)
qed

lemma nat_double_to_double: "nat_double (to_double (of_nat n))"
proof (cases "n = 0")
  case True
  then show ?thesis by (auto simp: to_double_def nat_double_def intro: exI [of _ 0])
next
  case False
  define q :: rat where "q = of_nat n"
  define e where "e = floor_log2 q - 52"
  define m where "m = round_half_even (q / pow2 e)"
  have q: "1 \<le> q" using False by (simp add: q_def)
  note td = to_double_ge_1 [OF q, folded e_def, folded m_def]
  have "\<exists>k::nat. of_int m * pow2 e = of_nat k"
  proof (cases "0 \<le> e")
    case True
    have "of_int m * pow2 e = (of_nat (nat m * 2 ^ nat e) :: rat)"
      using True td(4) by (simp add: pow2_def)
    then show ?thesis by blast
  next
    case False
    then have "q / pow2 e = of_int (int n * 2 ^ nat (- e))"
      by (simp add: pow2_def q_def)
    then have "m = int n * 2 ^ nat (- e)"
      unfolding m_def by (simp only: round_half_even_of_int)
    then have "of_int m * pow2 e = (of_nat n :: rat)" using False by (simp add: pow2_def)
    then show ?thesis by blast
  qed
  then show ?thesis using td(1) by (auto simp: nat_double_def q_def)
qed

lemma js_sub_sign:
  assumes "nat_double a" "nat_double b"
  shows "js_gt (js_sub b a) (Fin 0) \<longleftrightarrow> js_lt a b"
proof -
  consider (II) "a = PosInf" "b = PosInf" | (IF) k where "a = PosInf" "b = Fin (of_nat k)"
    | (FI) k where "a = Fin (of_nat k)" "b = PosInf"
    | (FF) j k where "a = Fin (of_nat j)" "b = Fin (of_nat k)"
    using assms by (auto simp: nat_double_def)
  then show ?thesis
  proof cases
    case II
    then show ?thesis by (simp add: js_sub_def js_gt_def)
  next
    case IF
    then show ?thesis by (simp add: js_sub_def js_gt_def signed_inf_def)
  next
    case FI
    then show ?thesis by (simp add: js_sub_def js_gt_def)
  next
    case FF
    show ?thesis
    proof (cases "j = k")
      case True
      then show ?thesis using FF by (simp add: js_sub_def js_gt_def)
    next
      case False
      define d :: rat where "d = of_nat k - of_nat j"
      have "d = of_int (int k - int j)" by (simp add: d_def)
      moreover have "1 \<le> \<bar>int k - int j\<bar>" using False by linarith
      ultimately have "1 \<le> \<bar>d\<bar>" by (metis of_int_abs of_int_1_le_iff)
      from to_double_sign [OF this] have "js_lt (Fin 0) (to_double d) \<longleftrightarrow> j < k"
        by (simp add: d_def)
      moreover have "js_sub b a = to_double d"
        using False FF by (simp add: js_sub_def d_def)
      ultimately show ?thesis using FF by (simp add: js_gt_def)
    qed
  qed
qed

lemma nat_double_apk_number: "apk_number name \<noteq> NaN \<Longrightarrow> nat_double (apk_number name)"
  by (auto simp: apk_number_def parseInt10_def nat_double_to_double split: if_splits)

lemma newest_first_gt:
  "apk_number x \<noteq> NaN \<Longrightarrow> apk_number y \<noteq> NaN \<Longrightarrow>
   js_gt (newest_first x y) (Fin 0) \<longleftrightarrow> js_lt (apk_number x) (apk_number y)"
  unfolding newest_first_def by (intro js_sub_sign nat_double_apk_number)

lemma js_lt_total_order:
  assumes "nat_double a" "nat_double b" "nat_double c"
  shows "\<not> js_lt a b \<Longrightarrow> \<not> js_lt b c \<Longrightarrow> \<not> js_lt a c"
    and "a \<noteq> b \<Longrightarrow> js_lt a b \<or> js_lt b a"
  using assms by (auto simp: nat_double_def)

lemma mset_insort_cmp: "mset (insort_cmp cmp x ys) = add_mset x (mset ys)"
  by (induction ys) simp_all

lemma mset_sort_cmp: "mset (sort_cmp cmp xs) = mset xs"
  by (induction xs) (simp_all add: sort_cmp_def mset_insort_cmp)

lemma set_insort_cmp: "set (insort_cmp cmp x ys) = insert x (set ys)"
  using mset_insort_cmp [of cmp x ys] by (metis set_mset_add_mset_insert set_mset_mset)

lemma set_sort_cmp: "set (sort_cmp cmp xs) = set xs"
  using mset_sort_cmp [of cmp xs] by (metis set_mset_mset)

lemma length_sort_cmp: "length (sort_cmp cmp xs) = length xs"
  using mset_sort_cmp [of cmp xs] by (metis size_mset)

lemma not_older_trans:
  "numbered a \<Longrightarrow> numbered b \<Longrightarrow> numbered c \<Longrightarrow> not_older a b \<Longrightarrow> not_older b c \<Longrightarrow> not_older a c"
  unfolding not_older_def numbered_def
  using js_lt_total_order(1) [of "apk_number a" "apk_number b" "apk_number c"]
  by (blast intro: nat_double_apk_number)

lemma sorted_insort_newest_first:
  assumes "numbered x" "list_all numbered ys" "sorted_wrt not_older ys"
  shows "sorted_wrt not_older (insort_cmp newest_first x ys)"
  using assms
proof (induction ys)
  case Nil
  then show ?case by simp
next
  case (Cons y ys)
  then have ny: "numbered y" and nys: "list_all numbered ys" by simp_all
  show ?case
  proof (cases "js_gt (newest_first x y) (Fin 0)")
    case True
    then have "js_lt (apk_number x) (apk_number y)"
      using newest_first_gt [of x y] Cons.prems(1) ny by (simp add: numbered_def)
    then have "not_older y x" by (simp add: not_older_def js_lt_asym)
    then show ?thesis using True Cons by (auto simp: set_insort_cmp)
  next
    case False
    then have xy: "not_older x y"
      using newest_first_gt [of x y] Cons.prems(1) ny by (simp add: numbered_def not_older_def)
    have "not_older x z" if "z \<in> set ys" for z
    proof -
      have "numbered z" using nys that by (simp add: list_all_iff)
      moreover have "not_older y z" using Cons.prems(3) that by simp
      ultimately show ?thesis using not_older_trans [OF Cons.prems(1) ny _ xy] by blast
    qed
    then show ?thesis using False xy Cons.prems(3) by auto
  qed
qed

lemma sorted_sort_newest_first:
  "list_all numbered xs \<Longrightarrow> sorted_wrt not_older (sort_cmp newest_first xs)"
proof (induction xs)
  case Nil
  then show ?case by (simp add: sort_cmp_def)
next
  case (Cons x xs)
  then have "sorted_wrt not_older (sort_cmp newest_first xs)" by simp
  moreover have "list_all numbered (sort_cmp newest_first xs)"
    using Cons.prems by (simp add: list_all_iff set_sort_cmp)
  ultimately have "sorted_wrt not_older (insort_cmp newest_first x (sort_cmp newest_first xs))"
    using Cons.prems by (intro sorted_insort_newest_first) simp_all
  then show ?case by (simp add: sort_cmp_def)
qed

text \<open>What the cleanup deletes, when the directory can be listed.\<close>

lemma cleanOldApkFiles_deletions:
  assumes dir: "documentDirectory env = Some dirUri" "dirUri \<noteq> []"
    and ls: "readDirectoryAsync env dirUri (world s) = (Inr listing, w)"
  shows "deletions (trace (snd (cleanOldApkFiles js env s))) =
           deletions (trace s) @
           (if length (filter is_apk_file listing) \<le> 2 then []
            else map (\<lambda>file. dirUri @ file)
                   (drop 2 (sort_apk_files js (filter is_apk_file listing))))"
proof (cases "length (filter is_apk_file listing) \<le> 2")
  case True
  then show ?thesis using dir ls
    by (simp add: cleanOldApkFiles_def task_defs Let_def)
next
  case False
  define stale where "stale = drop 2 (sort_apk_files js (filter is_apk_file listing))"
  define s1 where "s1 = s\<lparr>trace := trace s @ [Listed dirUri], world := w\<rparr>"
  obtain s2 where s2: "delete_stale env dirUri stale s1 = (Inr (), s2)"
    "deletions (trace s2) = deletions (trace s1) @ map (\<lambda>file. dirUri @ file) stale"
    using delete_stale_returns [of env dirUri stale s1] by blast
  have "cleanOldApkFiles js env s = (Inr (), s2)"
    using dir ls False s2(1)
    by (simp add: cleanOldApkFiles_def task_defs Let_def stale_def s1_def)
  then show ?thesis using s2(2) False by (simp add: stale_def s1_def)
qed

lemma to_double_not_NaN [simp]: "to_double q \<noteq> NaN"
  by (simp add: to_double_def Let_def)

lemma numbered_iff: "numbered name \<longleftrightarrow> filter is_digit name \<noteq> []"
  by (simp add: numbered_def apk_number_def parseInt10_def)

lemma older_if_distinct:
  assumes "numbered a" "numbered b" "apk_number a \<noteq> apk_number b" "not_older a b"
  shows "js_lt (apk_number b) (apk_number a)"
  using assms js_lt_total_order(2) [of "apk_number a" "apk_number b"]
  by (auto simp: numbered_def not_older_def intro: nat_double_apk_number)

lemma two_newest_kept:
  assumes n: "list_all numbered apkFiles" and len: "2 < length apkFiles"
  defines "ranked \<equiv> sort_cmp newest_first apkFiles"
  shows "length (take 2 ranked) = 2"
    and "mset (take 2 ranked @ drop 2 ranked) = mset apkFiles"
    and "\<forall>k\<in>set (take 2 ranked). \<forall>d\<in>set (drop 2 ranked). \<not> js_lt (apk_number k) (apk_number d)"
    and "distinct (map apk_number apkFiles) \<Longrightarrow>
         set (drop 2 ranked) =
           {f \<in> set apkFiles. \<exists>g\<in>set apkFiles. \<exists>h\<in>set apkFiles.
              g \<noteq> h \<and> js_lt (apk_number f) (apk_number g) \<and> js_lt (apk_number f) (apk_number h)}"
proof -
  have l: "length ranked = length apkFiles" by (simp add: ranked_def length_sort_cmp)
  then show "length (take 2 ranked) = 2" using len by simp
  show "mset (take 2 ranked @ drop 2 ranked) = mset apkFiles"
    by (simp add: ranked_def mset_sort_cmp)
  have sw: "sorted_wrt not_older ranked"
    unfolding ranked_def using n by (rule sorted_sort_newest_first)
  then have "sorted_wrt not_older (take 2 ranked @ drop 2 ranked)" by simp
  then show kd: "\<forall>k\<in>set (take 2 ranked). \<forall>d\<in>set (drop 2 ranked). \<not> js_lt (apk_number k) (apk_number d)"
    unfolding sorted_wrt_append by (simp add: not_older_def)
  assume d: "distinct (map apk_number apkFiles)"
  obtain k1 k2 stale where s: "ranked = k1 # k2 # stale"
    using l len by (cases ranked; cases "tl ranked") auto
  have st: "set ranked = set apkFiles" by (simp add: ranked_def set_sort_cmp)
  have num: "numbered x" if "x \<in> set ranked" for x
    using n that st by (simp add: list_all_iff)
  have "mset (map apk_number ranked) = mset (map apk_number apkFiles)"
    by (simp add: ranked_def mset_sort_cmp)
  then have ds: "distinct (map apk_number ranked)"
    using d by (metis mset_eq_imp_distinct_iff)
  have k12: "k1 \<noteq> k2" "apk_number k1 \<noteq> apk_number k2" using ds s by auto
  have no1: "not_older k1 x" if "x \<in> set (k2 # stale)" for x using sw s that by auto
  have no2: "not_older k2 x" if "x \<in> set stale" for x using sw s that by auto
  have below: "js_lt (apk_number f) (apk_number k1) \<and> js_lt (apk_number f) (apk_number k2)"
    if "f \<in> set stale" for f
  proof -
    have "apk_number k1 \<noteq> apk_number f" "apk_number k2 \<noteq> apk_number f"
      using ds s that by auto
    then show ?thesis
      using older_if_distinct [of k1 f] older_if_distinct [of k2 f] no1 [of f] no2 [of f] num that s
      by auto
  qed
  have top1: "\<not> js_lt (apk_number k1) (apk_number g)" if "g \<in> set ranked" for g
    using that s no1 [of g] by (auto simp: not_older_def)
  have top2: "g = k1" if "g \<in> set ranked" "js_lt (apk_number k2) (apk_number g)" for g
    using that s no2 [of g] by (auto simp: not_older_def)
  show "set (drop 2 ranked) =
           {f \<in> set apkFiles. \<exists>g\<in>set apkFiles. \<exists>h\<in>set apkFiles.
              g \<noteq> h \<and> js_lt (apk_number f) (apk_number g) \<and> js_lt (apk_number f) (apk_number h)}"
    (is "?S = ?T")
  proof (intro set_eqI iffI)
    fix f assume "f \<in> ?S"
    then have f: "f \<in> set stale" using s by simp
    then have "f \<in> set apkFiles" using s st by auto
    moreover have "k1 \<in> set apkFiles" "k2 \<in> set apkFiles" using s st by auto
    ultimately show "f \<in> ?T" using below [OF f] k12(1) by blast
  next
    fix f assume "f \<in> ?T"
    then obtain g h where f: "f \<in> set ranked" and g: "g \<in> set ranked" "h \<in> set ranked" "g \<noteq> h"
      "js_lt (apk_number f) (apk_number g)" "js_lt (apk_number f) (apk_number h)"
      using st by auto
    have "f \<noteq> k1" using top1 [OF g(1)] g(4) by auto
    moreover have "f \<noteq> k2" using top2 [OF g(1)] top2 [OF g(2)] g(3,4,5) by auto
    ultimately show "f \<in> ?S" using f s by auto
  qed
qed

lemmas string_eval = startsWith_def endsWith_def is_apk_file_def is_digit_def
  apk_number_def parseInt10_def decimal_def digit_value_def to_double_numeral

lemma five_listing_apk_files: "filter is_apk_file five_listing = [''OrionTV_v1700000000003.apk'', ''OrionTV_v1700000000005.apk'',
      ''OrionTV_v1700000000001.apk'', ''OrionTV_v1700000000004.apk'',
      ''OrionTV_v1700000000002.apk'']"
  by (simp add: five_listing_def string_eval)

lemma apk_number_example: "apk_number ''OrionTV_v1700000000003.apk'' = Fin 1700000000003"
  by (simp add: string_eval)

lemma five_listing_sorted: "sort_apk_files js (filter is_apk_file five_listing) = [''OrionTV_v1700000000005.apk'',
   ''OrionTV_v1700000000004.apk'', ''OrionTV_v1700000000003.apk'', ''OrionTV_v1700000000002.apk'', ''OrionTV_v1700000000001.apk'']"
  unfolding five_listing_apk_files
  by (simp add: sort_apk_files_def sort_cmp_def newest_first_gt string_eval)

lemma five_listing_deletions: "deletions (trace (snd (cleanOldApkFiles js (directory_env five_listing) initial)))
   = [''file:///files/OrionTV_v1700000000003.apk'', ''file:///files/OrionTV_v1700000000002.apk'', ''file:///files/OrionTV_v1700000000001.apk'']"
  by (subst cleanOldApkFiles_deletions [where dirUri = "''file:///files/''" and listing = five_listing and w = 0])
     (simp_all add: directory_env_def offline_env_def initial_def five_listing_sorted, simp add: five_listing_apk_files)

lemma release_listing_artifacts: "filter artifact_name release_listing = [''OrionTV_v1700000000001.apk'', ''OrionTV_v1700000000002.apk'']"
  by (simp add: release_listing_def artifact_name_def string_eval)

text \<open>
  C5. \<open>cleanOldApkFiles\<close> never throws: whatever the file system does (no document
  directory, a listing that fails, deletions that fail), it returns normally. When the
  directory is missing or cannot be listed, it deletes nothing. When the directory is
  listed, it calls \<^verbatim>\<open>deleteAsync\<close> for every stale file, in order, whatever \<^verbatim>\<open>deleteAsync\<close>
  answers: a deletion that fails does not stop the later ones.
\<close>

theorem cleanOldApkFiles_never_throws:
  "fst (cleanOldApkFiles js env s) = Inr ()
   \<and> (documentDirectory env = None \<or> documentDirectory env = Some []
        \<or> (\<exists>dirUri e w. documentDirectory env = Some dirUri
               \<and> readDirectoryAsync env dirUri (world s) = (Inl e, w))
      \<longrightarrow> deletions (trace (snd (cleanOldApkFiles js env s))) = deletions (trace s))
   \<and> (documentDirectory env = Some dirUri \<and> dirUri \<noteq> []
        \<and> readDirectoryAsync env dirUri (world s) = (Inr listing, w)
      \<longrightarrow> deletions (trace (snd (cleanOldApkFiles js env s))) =
            deletions (trace s) @
            (if length (filter is_apk_file listing) \<le> 2 then []
             else map (\<lambda>file. dirUri @ file)
                    (drop 2 (sort_apk_files js (filter is_apk_file listing)))))"
proof (intro conjI impI)
  show "fst (cleanOldApkFiles js env s) = Inr ()" by (rule cleanOldApkFiles_returns)
next
  assume "documentDirectory env = None \<or> documentDirectory env = Some []
        \<or> (\<exists>dirUri e w. documentDirectory env = Some dirUri
               \<and> readDirectoryAsync env dirUri (world s) = (Inl e, w))"
  then show "deletions (trace (snd (cleanOldApkFiles js env s))) = deletions (trace s)"
    by (auto simp: cleanOldApkFiles_def task_defs)
next
  assume "documentDirectory env = Some dirUri \<and> dirUri \<noteq> []
        \<and> readDirectoryAsync env dirUri (world s) = (Inr listing, w)"
  then show "deletions (trace (snd (cleanOldApkFiles js env s))) =
            deletions (trace s) @
            (if length (filter is_apk_file listing) \<le> 2 then []
             else map (\<lambda>file. dirUri @ file)
                    (drop 2 (sort_apk_files js (filter is_apk_file listing))))"
    by (intro cleanOldApkFiles_deletions) simp_all
qed

text \<open>
  Without a document directory the error is logged and the call returns. With five
  artifacts in a directory where every deletion fails, the call returns, and each of the
  three stale files has had its deletion tried and its failure logged.
\<close>

theorem cleanOldApkFiles_never_throws_witness:
  "cleanOldApkFiles example_engine offline_env initial =
     (Inr (), \<lparr>world = 0,
               trace = [Warned ''cleanOldApkFiles error'' (Error ''Document directory is not available'')]\<rparr>)
   \<and> deleteAsync (directory_env five_listing) = (\<lambda>path w. (Inl (Error ''cannot delete''), w))
   \<and> cleanOldApkFiles example_engine (directory_env five_listing) initial =
     (Inr (), \<lparr>world = 0,
               trace = [Listed ''file:///files/'',
                        Deleted ''file:///files/OrionTV_v1700000000003.apk'',
                        Warned ''Failed to delete OrionTV_v1700000000003.apk'' (Error ''cannot delete''),
                        Deleted ''file:///files/OrionTV_v1700000000002.apk'',
                        Warned ''Failed to delete OrionTV_v1700000000002.apk'' (Error ''cannot delete''),
                        Deleted ''file:///files/OrionTV_v1700000000001.apk'',
                        Warned ''Failed to delete OrionTV_v1700000000001.apk'' (Error ''cannot delete'')]\<rparr>)
   \<and> deletions (trace (snd (cleanOldApkFiles example_engine (directory_env five_listing) initial)))
     = [''file:///files/OrionTV_v1700000000003.apk'', ''file:///files/OrionTV_v1700000000002.apk'',
        ''file:///files/OrionTV_v1700000000001.apk'']"
proof -
  have 1: "cleanOldApkFiles example_engine offline_env initial =
     (Inr (), \<lparr>world = 0,
               trace = [Warned ''cleanOldApkFiles error'' (Error ''Document directory is not available'')]\<rparr>)"
    by (simp add: cleanOldApkFiles_def offline_env_def initial_def task_defs)
  have 2: "deleteAsync (directory_env five_listing) = (\<lambda>path w. (Inl (Error ''cannot delete''), w))"
    by (simp add: directory_env_def offline_env_def)
  have h: "documentDirectory (directory_env five_listing) = Some ''file:///files/''
        \<and> ''file:///files/'' \<noteq> []
        \<and> readDirectoryAsync (directory_env five_listing) ''file:///files/'' (world initial)
            = (Inr five_listing, 0)"
    by (simp add: directory_env_def offline_env_def initial_def)
  have len: "\<not> length (filter is_apk_file five_listing) \<le> 2"
    unfolding five_listing_apk_files by simp
  have 3: "cleanOldApkFiles example_engine (directory_env five_listing) initial =
     (Inr (), \<lparr>world = 0,
               trace = [Listed ''file:///files/'',
                        Deleted ''file:///files/OrionTV_v1700000000003.apk'',
                        Warned ''Failed to delete OrionTV_v1700000000003.apk'' (Error ''cannot delete''),
                        Deleted ''file:///files/OrionTV_v1700000000002.apk'',
                        Warned ''Failed to delete OrionTV_v1700000000002.apk'' (Error ''cannot delete''),
                        Deleted ''file:///files/OrionTV_v1700000000001.apk'',
                        Warned ''Failed to delete OrionTV_v1700000000001.apk'' (Error ''cannot delete'')]\<rparr>)"
    using len
    by (simp add: cleanOldApkFiles_def task_defs Let_def five_listing_sorted directory_env_def
        offline_env_def initial_def)
  have 4: "deletions (trace (snd (cleanOldApkFiles example_engine (directory_env five_listing) initial)))
     = deletions (trace initial) @
         map (\<lambda>file. ''file:///files/'' @ file)
           (drop 2 (sort_apk_files example_engine (filter is_apk_file five_listing)))"
    using cleanOldApkFiles_never_throws [of example_engine "directory_env five_listing" initial
        "''file:///files/''" five_listing 0] h len
    by simp
  show ?thesis
    using 1 2 3 4 unfolding five_listing_sorted by (simp add: initial_def)
qed

lemma unnumbered_sorted:
  "sort_apk_files example_engine unnumbered_listing =
    [''OrionTV_v.apk'', ''OrionTV_v1700000000002.apk'', ''OrionTV_v1700000000001.apk'']"
  by (simp add: unnumbered_listing_def sort_apk_files_def sort_cmp_def example_engine_def
      newest_first_def js_sub_def js_gt_def string_eval to_double_1)

text \<open>
  The number of an artifact name is its timestamp, as long as the timestamp is an integer
  that binary64 has: the digits of the name are those of the timestamp.
\<close>

lemma artifact_digits:
  assumes "artifact_name name"
  shows "filter is_digit name = take (length name - 13) (drop 9 name)"
proof -
  define middle where "middle = take (length name - 13) (drop 9 name)"
  have len: "13 < length name" and pre: "take 9 name = ''OrionTV_v''"
    and suf: "drop (length name - 4) name = ''.apk''" and mid: "list_all is_digit middle"
    using assms
    unfolding artifact_name_def startsWith_def endsWith_def middle_def
    by (simp_all add: eval_nat_numeral)
  have "drop (length name - 13) (drop 9 name) = drop (length name - 4) name"
    using len by simp
  then have "name = take 9 name @ middle @ drop (length name - 4) name"
    unfolding middle_def by (metis append_take_drop_id)
  then have "name = ''OrionTV_v'' @ middle @ ''.apk''" using pre suf by simp
  then have "filter is_digit name = filter is_digit ''OrionTV_v'' @ filter is_digit middle
      @ filter is_digit ''.apk''"
    by (metis filter_append)
  also have "filter is_digit ''OrionTV_v'' = []" by (simp add: is_digit_def)
  also have "filter is_digit ''.apk'' = []" by (simp add: is_digit_def)
  also have "filter is_digit middle = middle" using mid by (simp add: list_all_iff)
  finally show ?thesis by (simp add: middle_def)
qed

lemma artifact_number:
  assumes "artifact_name name" and "artifact_timestamp name \<le> 2 ^ 53"
  shows "apk_number name = Fin (of_nat (artifact_timestamp name))"
proof -
  have "take (length name - 13) (drop 9 name) \<noteq> []"
    using assms(1) by (simp add: artifact_name_def)
  then show ?thesis
    using assms(2)
    unfolding apk_number_def artifact_digits [OF assms(1)] parseInt10_def artifact_timestamp_def
    by (simp add: to_double_nat_exact)
qed

lemma artifact_order:
  assumes "list_all artifact_name apkFiles"
    and "list_all (\<lambda>name. artifact_timestamp name \<le> 2 ^ 53) apkFiles"
  shows "map apk_number apkFiles = map (\<lambda>name. Fin (of_nat (artifact_timestamp name))) apkFiles"
    and "{f \<in> set apkFiles. \<exists>g\<in>set apkFiles. \<exists>h\<in>set apkFiles.
            g \<noteq> h \<and> js_lt (apk_number f) (apk_number g) \<and> js_lt (apk_number f) (apk_number h)}
       = {f \<in> set apkFiles. \<exists>g\<in>set apkFiles. \<exists>h\<in>set apkFiles.
            g \<noteq> h \<and> artifact_timestamp f < artifact_timestamp g
            \<and> artifact_timestamp f < artifact_timestamp h}"
proof -
  have n: "apk_number f = Fin (of_nat (artifact_timestamp f))" if "f \<in> set apkFiles" for f
    using assms that by (intro artifact_number) (simp_all add: list_all_iff)
  show "map apk_number apkFiles = map (\<lambda>name. Fin (of_nat (artifact_timestamp name))) apkFiles"
    using n by simp
  show "{f \<in> set apkFiles. \<exists>g\<in>set apkFiles. \<exists>h\<in>set apkFiles.
            g \<noteq> h \<and> js_lt (apk_number f) (apk_number g) \<and> js_lt (apk_number f) (apk_number h)}
       = {f \<in> set apkFiles. \<exists>g\<in>set apkFiles. \<exists>h\<in>set apkFiles.
            g \<noteq> h \<and> artifact_timestamp f < artifact_timestamp g
            \<and> artifact_timestamp f < artifact_timestamp h}"
    by (intro Collect_cong conj_cong bex_cong refl) (simp_all add: n)
qed

lemma artifact_distinct:
  assumes "list_all artifact_name apkFiles"
    and "list_all (\<lambda>name. artifact_timestamp name \<le> 2 ^ 53) apkFiles"
    and "distinct (map artifact_timestamp apkFiles)"
  shows "distinct (map apk_number apkFiles)"
proof -
  have "inj (\<lambda>n :: nat. Fin (of_nat n))" by (simp add: inj_on_def)
  then have "distinct (map (\<lambda>n :: nat. Fin (of_nat n)) (map artifact_timestamp apkFiles))"
    using assms(3) by (simp add: distinct_map inj_on_def)
  then show ?thesis unfolding artifact_order(1) [OF assms(1,2)] by (simp add: comp_def)
qed

text \<open>
  C2, as stated, fails. The filter takes every name that starts with \<^verbatim>\<open>OrionTV_v\<close> and ends
  with \<^verbatim>\<open>.apk\<close>, whatever stands between. With two artifacts and a release file
  \<^verbatim>\<open>OrionTV_v1.2.0.apk\<close> in the directory, two entries match the artifact naming pattern,
  and yet the release file (number 120) is deleted. And with a name that has no digit at
  all, an engine that sorts by insertion keeps that name and deletes the artifact with the
  second largest timestamp.
\<close>

theorem cleanOldApkFiles_considers_more_counterexample:
  "length (filter artifact_name release_listing) \<le> 2
   \<and> deletions (trace (snd (cleanOldApkFiles example_engine (directory_env release_listing) initial)))
       = [''file:///files/OrionTV_v1.2.0.apk'']
   \<and> deletions (trace (snd (cleanOldApkFiles example_engine (directory_env unnumbered_listing) initial)))
       = [''file:///files/OrionTV_v1700000000001.apk'']"
proof -
  have "filter is_apk_file release_listing = release_listing"
    by (simp add: release_listing_def string_eval)
  moreover have "sort_apk_files example_engine release_listing =
    [''OrionTV_v1700000000002.apk'', ''OrionTV_v1700000000001.apk'', ''OrionTV_v1.2.0.apk'']"
    by (simp add: release_listing_def sort_apk_files_def sort_cmp_def newest_first_gt string_eval)
  moreover have "length release_listing = 3" by (simp add: release_listing_def)
  ultimately have "deletions (trace (snd (cleanOldApkFiles example_engine (directory_env release_listing) initial)))
       = [''file:///files/OrionTV_v1.2.0.apk'']"
    by (subst cleanOldApkFiles_deletions
          [where dirUri = "''file:///files/''" and listing = release_listing and w = 0])
       (simp_all add: directory_env_def offline_env_def initial_def)
  moreover have "length (filter artifact_name release_listing) \<le> 2"
    by (simp add: release_listing_def artifact_name_def string_eval)
  moreover have "filter is_apk_file unnumbered_listing = unnumbered_listing"
    by (simp add: unnumbered_listing_def string_eval)
  then have "deletions (trace (snd (cleanOldApkFiles example_engine (directory_env unnumbered_listing) initial)))
       = [''file:///files/OrionTV_v1700000000001.apk'']"
    by (subst cleanOldApkFiles_deletions
          [where dirUri = "''file:///files/''" and listing = unnumbered_listing and w = 0])
       (simp_all add: directory_env_def offline_env_def initial_def unnumbered_sorted,
        simp add: unnumbered_listing_def)
  ultimately show ?thesis by simp
qed

text \<open>
  C2, amended. For every directory listing, the cleanup considers exactly the entries
  whose name starts with \<^verbatim>\<open>OrionTV_v\<close> and ends with \<^verbatim>\<open>.apk\<close>. If 2 or fewer are such, it
  calls \<^verbatim>\<open>deleteAsync\<close> for none, whatever their names. Otherwise, when each of them
  contains a decimal digit, it calls \<^verbatim>\<open>deleteAsync\<close> for all of them but 2, and none of the
  deleted has a larger number than one of the 2 retained; the number of a name is
  \<open>apk_number\<close>, all its decimal digits read as one integer. When these numbers are pairwise distinct, the deleted entries are
  exactly those with at least two entries of a larger number, so the 2 with the largest
  numbers are retained whatever the order of the listing. In particular, when the entries
  are artifact names with pairwise distinct timestamps up to \<open>2 ^ 53\<close>, the deleted ones are
  exactly those with at least two entries of a larger timestamp.
\<close>

theorem cleanOldApkFiles_keeps_two_newest:
  fixes listing :: "string list"
  defines "apkFiles \<equiv> filter is_apk_file listing"
  assumes "documentDirectory env = Some dirUri" and "dirUri \<noteq> []"
    and "readDirectoryAsync env dirUri (world s) = (Inr listing, w)"
  shows "\<exists>stale.
      deletions (trace (snd (cleanOldApkFiles js env s)))
        = deletions (trace s) @ map (\<lambda>file. dirUri @ file) stale
    \<and> (length apkFiles \<le> 2 \<longrightarrow> stale = [])
    \<and> (2 < length apkFiles \<and> list_all (\<lambda>name. filter is_digit name \<noteq> []) apkFiles \<longrightarrow>
         (\<exists>kept. length kept = 2 \<and> mset (kept @ stale) = mset apkFiles
            \<and> (\<forall>k\<in>set kept. \<forall>d\<in>set stale. \<not> js_lt (apk_number k) (apk_number d)))
         \<and> (distinct (map apk_number apkFiles) \<longrightarrow>
              set stale =
                {f \<in> set apkFiles. \<exists>g\<in>set apkFiles. \<exists>h\<in>set apkFiles.
                   g \<noteq> h \<and> js_lt (apk_number f) (apk_number g)
                   \<and> js_lt (apk_number f) (apk_number h)})
         \<and> (list_all artifact_name apkFiles
              \<and> list_all (\<lambda>name. artifact_timestamp name \<le> 2 ^ 53) apkFiles
              \<and> distinct (map artifact_timestamp apkFiles) \<longrightarrow>
              set stale =
                {f \<in> set apkFiles. \<exists>g\<in>set apkFiles. \<exists>h\<in>set apkFiles.
                   g \<noteq> h \<and> artifact_timestamp f < artifact_timestamp g
                   \<and> artifact_timestamp f < artifact_timestamp h}))"
proof (cases "length apkFiles \<le> 2")
  case True
  then show ?thesis
    using cleanOldApkFiles_deletions [OF assms(2,3,4), of js]
    by (intro exI [of _ "[]"]) (simp add: apkFiles_def)
next
  case False
  then have len: "2 < length apkFiles" by simp
  define stale where "stale = drop 2 (sort_apk_files js apkFiles)"
  have del: "deletions (trace (snd (cleanOldApkFiles js env s)))
        = deletions (trace s) @ map (\<lambda>file. dirUri @ file) stale"
    using cleanOldApkFiles_deletions [OF assms(2,3,4), of js] False
    by (simp add: apkFiles_def [symmetric] stale_def)
  have main: "(\<exists>kept. length kept = 2 \<and> mset (kept @ stale) = mset apkFiles
            \<and> (\<forall>k\<in>set kept. \<forall>d\<in>set stale. \<not> js_lt (apk_number k) (apk_number d)))
         \<and> (distinct (map apk_number apkFiles) \<longrightarrow>
              set stale =
                {f \<in> set apkFiles. \<exists>g\<in>set apkFiles. \<exists>h\<in>set apkFiles.
                   g \<noteq> h \<and> js_lt (apk_number f) (apk_number g)
                   \<and> js_lt (apk_number f) (apk_number h)})
         \<and> (list_all artifact_name apkFiles
              \<and> list_all (\<lambda>name. artifact_timestamp name \<le> 2 ^ 53) apkFiles
              \<and> distinct (map artifact_timestamp apkFiles) \<longrightarrow>
              set stale =
                {f \<in> set apkFiles. \<exists>g\<in>set apkFiles. \<exists>h\<in>set apkFiles.
                   g \<noteq> h \<and> artifact_timestamp f < artifact_timestamp g
                   \<and> artifact_timestamp f < artifact_timestamp h})"
    if digits: "list_all (\<lambda>name. filter is_digit name \<noteq> []) apkFiles"
  proof -
    have n: "list_all numbered apkFiles"
      using digits by (simp add: list_all_iff numbered_iff)
    then have srt: "sort_apk_files js apkFiles = sort_cmp newest_first apkFiles"
      by (simp add: sort_apk_files_def list_all_iff numbered_def)
    define ranked where "ranked = sort_cmp newest_first apkFiles"
    have st: "stale = drop 2 ranked" by (simp add: stale_def srt ranked_def)
    note two = two_newest_kept [OF n len, folded ranked_def]
    have kept: "\<exists>kept. length kept = 2 \<and> mset (kept @ drop 2 ranked) = mset apkFiles
            \<and> (\<forall>k\<in>set kept. \<forall>d\<in>set (drop 2 ranked). \<not> js_lt (apk_number k) (apk_number d))"
      using two(1,2,3) by blast
    have exact: "distinct (map apk_number apkFiles) \<longrightarrow>
              set (drop 2 ranked) =
                {f \<in> set apkFiles. \<exists>g\<in>set apkFiles. \<exists>h\<in>set apkFiles.
                   g \<noteq> h \<and> js_lt (apk_number f) (apk_number g)
                   \<and> js_lt (apk_number f) (apk_number h)}"
      using two(4) by blast
    have stamps: "list_all artifact_name apkFiles
              \<and> list_all (\<lambda>name. artifact_timestamp name \<le> 2 ^ 53) apkFiles
              \<and> distinct (map artifact_timestamp apkFiles) \<longrightarrow>
              set (drop 2 ranked) =
                {f \<in> set apkFiles. \<exists>g\<in>set apkFiles. \<exists>h\<in>set apkFiles.
                   g \<noteq> h \<and> artifact_timestamp f < artifact_timestamp g
                   \<and> artifact_timestamp f < artifact_timestamp h}"
    proof (intro impI, elim conjE)
      assume a: "list_all artifact_name apkFiles"
        "list_all (\<lambda>name. artifact_timestamp name \<le> 2 ^ 53) apkFiles"
        "distinct (map artifact_timestamp apkFiles)"
      have "set (drop 2 ranked) =
                {f \<in> set apkFiles. \<exists>g\<in>set apkFiles. \<exists>h\<in>set apkFiles.
                   g \<noteq> h \<and> js_lt (apk_number f) (apk_number g)
                   \<and> js_lt (apk_number f) (apk_number h)}"
        using exact artifact_distinct [OF a] by (rule mp)
      then show "set (drop 2 ranked) =
                {f \<in> set apkFiles. \<exists>g\<in>set apkFiles. \<exists>h\<in>set apkFiles.
                   g \<noteq> h \<and> artifact_timestamp f < artifact_timestamp g
                   \<and> artifact_timestamp f < artifact_timestamp h}"
        by (simp only: artifact_order(2) [OF a(1,2)])
    qed
    show ?thesis unfolding st by (intro conjI kept exact stamps)
  qed
  show ?thesis
  proof (rule exI [of _ stale], intro conjI)
    show "deletions (trace (snd (cleanOldApkFiles js env s)))
        = deletions (trace s) @ map (\<lambda>file. dirUri @ file) stale"
      by (rule del)
    show "length apkFiles \<le> 2 \<longrightarrow> stale = []" using len by simp
    show "2 < length apkFiles \<and> list_all (\<lambda>name. filter is_digit name \<noteq> []) apkFiles \<longrightarrow>
         (\<exists>kept. length kept = 2 \<and> mset (kept @ stale) = mset apkFiles
            \<and> (\<forall>k\<in>set kept. \<forall>d\<in>set stale. \<not> js_lt (apk_number k) (apk_number d)))
         \<and> (distinct (map apk_number apkFiles) \<longrightarrow>
              set stale =
                {f \<in> set apkFiles. \<exists>g\<in>set apkFiles. \<exists>h\<in>set apkFiles.
                   g \<noteq> h \<and> js_lt (apk_number f) (apk_number g)
                   \<and> js_lt (apk_number f) (apk_number h)})
         \<and> (list_all artifact_name apkFiles
              \<and> list_all (\<lambda>name. artifact_timestamp name \<le> 2 ^ 53) apkFiles
              \<and> distinct (map artifact_timestamp apkFiles) \<longrightarrow>
              set stale =
                {f \<in> set apkFiles. \<exists>g\<in>set apkFiles. \<exists>h\<in>set apkFiles.
                   g \<noteq> h \<and> artifact_timestamp f < artifact_timestamp g
                   \<and> artifact_timestamp f < artifact_timestamp h})"
      using main by blast
  qed
qed

text \<open>
  Five artifacts with distinct timestamps, listed out of order among other files: the
  three oldest are deleted. And a directory with one matching name, which has no digit:
  nothing is deleted.
\<close>

theorem cleanOldApkFiles_keeps_two_newest_witness:
  "documentDirectory (directory_env five_listing) = Some ''file:///files/''
   \<and> readDirectoryAsync (directory_env five_listing) ''file:///files/'' (world initial)
       = (Inr five_listing, 0)
   \<and> list_all (\<lambda>name. filter is_digit name \<noteq> []) (filter is_apk_file five_listing)
   \<and> distinct (map apk_number (filter is_apk_file five_listing))
   \<and> list_all artifact_name (filter is_apk_file five_listing)
   \<and> list_all (\<lambda>name. artifact_timestamp name \<le> 2 ^ 53) (filter is_apk_file five_listing)
   \<and> distinct (map artifact_timestamp (filter is_apk_file five_listing))
   \<and> set (deletions (trace (snd (cleanOldApkFiles example_engine (directory_env five_listing) initial))))
       = {''file:///files/OrionTV_v1700000000001.apk'', ''file:///files/OrionTV_v1700000000002.apk'',
          ''file:///files/OrionTV_v1700000000003.apk''}
   \<and> (\<exists>stale.
        deletions (trace (snd (cleanOldApkFiles example_engine (directory_env five_listing) initial)))
          = map (\<lambda>file. ''file:///files/'' @ file) stale
      \<and> set stale =
          {f \<in> set (filter is_apk_file five_listing).
             \<exists>g\<in>set (filter is_apk_file five_listing). \<exists>h\<in>set (filter is_apk_file five_listing).
               g \<noteq> h \<and> js_lt (apk_number f) (apk_number g) \<and> js_lt (apk_number f) (apk_number h)}
      \<and> set stale =
          {f \<in> set (filter is_apk_file five_listing).
             \<exists>g\<in>set (filter is_apk_file five_listing). \<exists>h\<in>set (filter is_apk_file five_listing).
               g \<noteq> h \<and> artifact_timestamp f < artifact_timestamp g
               \<and> artifact_timestamp f < artifact_timestamp h})
   \<and> filter is_apk_file [''OrionTV_v.apk'', ''notes.txt''] = [''OrionTV_v.apk'']
   \<and> filter is_digit ''OrionTV_v.apk'' = []
   \<and> deletions (trace (snd (cleanOldApkFiles example_engine
         (directory_env [''OrionTV_v.apk'', ''notes.txt'']) initial))) = []"
proof -
  have h1: "documentDirectory (directory_env five_listing) = Some ''file:///files/''"
    by (simp add: directory_env_def offline_env_def)
  have h2: "''file:///files/'' \<noteq> []" by simp
  have h3: "readDirectoryAsync (directory_env five_listing) ''file:///files/'' (world initial)
       = (Inr five_listing, 0)"
    by (simp add: directory_env_def offline_env_def initial_def)
  have h4: "list_all (\<lambda>name. filter is_digit name \<noteq> []) (filter is_apk_file five_listing)"
    unfolding five_listing_apk_files by (simp add: is_digit_def)
  have h5: "distinct (map apk_number (filter is_apk_file five_listing))"
    unfolding five_listing_apk_files by (simp add: string_eval)
  have h6: "2 < length (filter is_apk_file five_listing)" unfolding five_listing_apk_files by simp
  have h7: "list_all artifact_name (filter is_apk_file five_listing)"
    unfolding five_listing_apk_files
    by (simp add: artifact_name_def startsWith_def endsWith_def is_digit_def)
  have h8: "list_all (\<lambda>name. artifact_timestamp name \<le> 2 ^ 53) (filter is_apk_file five_listing)"
    unfolding five_listing_apk_files
    by (simp add: artifact_timestamp_def decimal_def digit_value_def)
  have h9: "distinct (map artifact_timestamp (filter is_apk_file five_listing))"
    unfolding five_listing_apk_files
    by (simp add: artifact_timestamp_def decimal_def digit_value_def)
  have ev: "set (deletions (trace (snd (cleanOldApkFiles example_engine (directory_env five_listing) initial))))
       = {''file:///files/OrionTV_v1700000000001.apk'', ''file:///files/OrionTV_v1700000000002.apk'',
          ''file:///files/OrionTV_v1700000000003.apk''}"
    unfolding five_listing_deletions by auto
  have tr: "deletions (trace initial) = []" by (simp add: initial_def)
  have "\<exists>stale.
        deletions (trace (snd (cleanOldApkFiles example_engine (directory_env five_listing) initial)))
          = map (\<lambda>file. ''file:///files/'' @ file) stale
      \<and> set stale =
          {f \<in> set (filter is_apk_file five_listing).
             \<exists>g\<in>set (filter is_apk_file five_listing). \<exists>h\<in>set (filter is_apk_file five_listing).
               g \<noteq> h \<and> js_lt (apk_number f) (apk_number g) \<and> js_lt (apk_number f) (apk_number h)}
      \<and> set stale =
          {f \<in> set (filter is_apk_file five_listing).
             \<exists>g\<in>set (filter is_apk_file five_listing). \<exists>h\<in>set (filter is_apk_file five_listing).
               g \<noteq> h \<and> artifact_timestamp f < artifact_timestamp g
               \<and> artifact_timestamp f < artifact_timestamp h}"
    using cleanOldApkFiles_keeps_two_newest [OF h1 h2 h3, of example_engine] h4 h5 h6 h7 h8 h9
    unfolding tr append_Nil by blast
  moreover have s1: "filter is_apk_file [''OrionTV_v.apk'', ''notes.txt''] = [''OrionTV_v.apk'']"
    by (simp add: string_eval)
  moreover have s2: "filter is_digit ''OrionTV_v.apk'' = []" by (simp add: is_digit_def)
  moreover have "deletions (trace (snd (cleanOldApkFiles example_engine
         (directory_env [''OrionTV_v.apk'', ''notes.txt'']) initial))) = []"
  proof -
    have g1: "documentDirectory (directory_env [''OrionTV_v.apk'', ''notes.txt''])
        = Some ''file:///files/''"
      by (simp add: directory_env_def offline_env_def)
    have g3: "readDirectoryAsync (directory_env [''OrionTV_v.apk'', ''notes.txt''])
          ''file:///files/'' (world initial)
        = (Inr [''OrionTV_v.apk'', ''notes.txt''], 0)"
      by (simp add: directory_env_def offline_env_def initial_def)
    from cleanOldApkFiles_keeps_two_newest [OF g1 h2 g3, of example_engine]
    show ?thesis unfolding s1 tr by auto
  qed
  ultimately show ?thesis
    using h1 h3 h4 h5 h7 h8 h9 ev by (intro conjI)
qed

section \<open>Version check\<close>

lemma waits_append [simp]: "waits (xs @ ys) = waits xs @ waits ys"
  by (induction xs rule: waits.induct) simp_all

lemma fetches_append [simp]: "fetches (xs @ ys) = fetches xs + fetches ys"
  by (induction xs rule: fetches.induct) simp_all

lemma show_nat_digit: "n < 10 \<Longrightarrow> show_nat n = [''0123456789'' ! n]"
  by (subst show_nat.simps) simp

lemma show_nat_1_2_3 [simp]: "show_nat 1 = ''1''" "show_nat 2 = ''2''" "show_nat 3 = ''3''"
    "show_nat (Suc 0) = ''1''"
  by (simp_all add: show_nat_digit)

lemma checkVersion_try_trace:
  "trace (snd (checkVersion_try env s)) = trace s @ [Fetched (GITHUB_RAW_URL env)]"
  by (auto simp: checkVersion_try_def task_defs split: prod.splits sum.splits)

lemma checkVersion_catch_1:
  "checkVersion_catch 1 e s =
     (Inr None, s\<lparr>trace := trace s @ [Warned ''checkVersion attempt 1/3'' e, Waited 2000]\<rparr>)"
  by (simp add: checkVersion_catch_def task_defs maxRetries_def)

lemma checkVersion_catch_2:
  "checkVersion_catch 2 e s =
     (Inr None, s\<lparr>trace := trace s @ [Warned ''checkVersion attempt 2/3'' e, Waited 4000]\<rparr>)"
  by (simp add: checkVersion_catch_def task_defs maxRetries_def)

lemma checkVersion_catch_3:
  "checkVersion_catch 3 e s =
     (Inl e, s\<lparr>trace := trace s @ [Warned ''checkVersion attempt 3/3'' e, Toasted CheckFailedToast]\<rparr>)"
  by (simp add: checkVersion_catch_def task_defs maxRetries_def)

lemma checkVersion_from_1:
  "checkVersion_from env 1 s =
     (case checkVersion_try env s of
        (Inr info, s1) \<Rightarrow> (Inr info, s1)
      | (Inl e, s1) \<Rightarrow> checkVersion_from env 2 (snd (checkVersion_catch 1 e s1)))"
  by (subst checkVersion_from.simps)
     (simp del: One_nat_def
       add: bind_def try_catch_def succeed_def checkVersion_catch_1 maxRetries_def
       split: prod.splits sum.splits)

lemma checkVersion_from_2:
  "checkVersion_from env 2 s =
     (case checkVersion_try env s of
        (Inr info, s1) \<Rightarrow> (Inr info, s1)
      | (Inl e, s1) \<Rightarrow> checkVersion_from env 3 (snd (checkVersion_catch 2 e s1)))"
  by (subst checkVersion_from.simps)
     (simp add: bind_def try_catch_def succeed_def checkVersion_catch_2 maxRetries_def
       split: prod.splits sum.splits)

lemma checkVersion_from_3:
  "checkVersion_from env 3 s =
     (case checkVersion_try env s of
        (Inr info, s1) \<Rightarrow> (Inr info, s1)
      | (Inl e, s1) \<Rightarrow> (Inl e, snd (checkVersion_catch 3 e s1)))"
  by (subst checkVersion_from.simps)
     (simp add: bind_def try_catch_def succeed_def checkVersion_catch_3 maxRetries_def
       split: prod.splits sum.splits)

lemmas checkVersion_unfold =
  checkVersion_def checkVersion_from_1 checkVersion_from_2 checkVersion_from_3

lemma checkVersion_run:
  fixes env :: "'w env" and s0 :: "'w state"
  obtains
    (first) info t1 where "checkVersion_try env s0 = (Inr info, t1)"
      "checkVersion env s0 = (Inr info, t1)"
  | (second) e1 t1 info t2 where "checkVersion_try env s0 = (Inl e1, t1)"
      "checkVersion_try env (snd (checkVersion_catch 1 e1 t1)) = (Inr info, t2)"
      "checkVersion env s0 = (Inr info, t2)"
  | (third) e1 t1 e2 t2 info t3 where "checkVersion_try env s0 = (Inl e1, t1)"
      "checkVersion_try env (snd (checkVersion_catch 1 e1 t1)) = (Inl e2, t2)"
      "checkVersion_try env (snd (checkVersion_catch 2 e2 t2)) = (Inr info, t3)"
      "checkVersion env s0 = (Inr info, t3)"
  | (failed) e1 t1 e2 t2 e3 t3 where "checkVersion_try env s0 = (Inl e1, t1)"
      "checkVersion_try env (snd (checkVersion_catch 1 e1 t1)) = (Inl e2, t2)"
      "checkVersion_try env (snd (checkVersion_catch 2 e2 t2)) = (Inl e3, t3)"
      "checkVersion env s0 = (Inl e3, snd (checkVersion_catch 3 e3 t3))"
proof -
  obtain r1 t1 where a1: "checkVersion_try env s0 = (r1, t1)"
    by (cases "checkVersion_try env s0")
  show ?thesis
  proof (cases r1)
    case (Inr info)
    have "checkVersion env s0 = (Inr info, t1)"
      unfolding checkVersion_unfold a1 Inr by simp
    then show ?thesis using a1 Inr first [of info t1] by blast
  next
    case e1: (Inl e1)
    obtain r2 t2 where a2: "checkVersion_try env (snd (checkVersion_catch 1 e1 t1)) = (r2, t2)"
      by (cases "checkVersion_try env (snd (checkVersion_catch 1 e1 t1))")
    show ?thesis
    proof (cases r2)
      case (Inr info)
      have "checkVersion env s0 = (Inr info, t2)"
        unfolding checkVersion_unfold a1 e1 sum.case prod.case a2 Inr by simp
      then show ?thesis using a1 e1 a2 Inr second [of e1 t1 info t2] by blast
    next
      case e2: (Inl e2)
      obtain r3 t3 where a3: "checkVersion_try env (snd (checkVersion_catch 2 e2 t2)) = (r3, t3)"
        by (cases "checkVersion_try env (snd (checkVersion_catch 2 e2 t2))")
      show ?thesis
      proof (cases r3)
        case (Inr info)
        have "checkVersion env s0 = (Inr info, t3)"
          unfolding checkVersion_unfold a1 e1 sum.case prod.case a2 e2 a3 Inr by simp
        then show ?thesis using a1 e1 a2 e2 a3 Inr third [of e1 t1 e2 t2 info t3] by blast
      next
        case (Inl e3)
        have "checkVersion env s0 = (Inl e3, snd (checkVersion_catch 3 e3 t3))"
          unfolding checkVersion_unfold a1 e1 sum.case prod.case a2 e2 a3 Inl by simp
        then show ?thesis using a1 e1 a2 e2 a3 Inl failed [of e1 t1 e2 t2 e3 t3] by blast
      qed
    qed
  qed
qed

lemma checkVersion_try_waits:
  "checkVersion_try env s = (r, t) \<Longrightarrow> waits (trace t) = waits (trace s)"
  "checkVersion_try env s = (r, t) \<Longrightarrow> fetches (trace t) = Suc (fetches (trace s))"
  using checkVersion_try_trace [of env s] by simp_all

lemma checkVersion_catch_waits:
  "waits (trace (snd (checkVersion_catch 1 e s))) = waits (trace s) @ [2000]"
  "waits (trace (snd (checkVersion_catch 2 e s))) = waits (trace s) @ [4000]"
  "waits (trace (snd (checkVersion_catch 3 e s))) = waits (trace s)"
  "fetches (trace (snd (checkVersion_catch 1 e s))) = fetches (trace s)"
  "fetches (trace (snd (checkVersion_catch 2 e s))) = fetches (trace s)"
  "fetches (trace (snd (checkVersion_catch 3 e s))) = fetches (trace s)"
  unfolding checkVersion_catch_1 checkVersion_catch_2 checkVersion_catch_3 by simp_all

text \<open>
  C3. \<open>checkVersion\<close> makes at most 3 requests, and the delays it waits for are a prefix of
  2000 ms, 4000 ms. When all 3 attempts fail it has waited exactly twice, 2000 ms then
  4000 ms, shows the toast and throws the error of the third attempt. When the first
  attempt fails and the second succeeds it has waited exactly once, 2000 ms, and returns
  the \<open>VersionInfo\<close> of the second attempt.
\<close>

theorem checkVersion_retries:
  "(checkVersion_try env s0 = (Inl e1, s1)
      \<and> checkVersion_try env (snd (checkVersion_catch 1 e1 s1)) = (Inl e2, s2)
      \<and> checkVersion_try env (snd (checkVersion_catch 2 e2 s2)) = (Inl e3, s3)
    \<longrightarrow> fst (checkVersion env s0) = Inl e3
        \<and> waits (trace (snd (checkVersion env s0))) = waits (trace s0) @ [2000, 4000]
        \<and> trace (snd (checkVersion env s0))
            = trace s3 @ [Warned ''checkVersion attempt 3/3'' e3, Toasted CheckFailedToast])
   \<and> (checkVersion_try env s0 = (Inl e1, s1)
      \<and> checkVersion_try env (snd (checkVersion_catch 1 e1 s1)) = (Inr info, s2)
    \<longrightarrow> checkVersion env s0 = (Inr info, s2)
        \<and> waits (trace s2) = waits (trace s0) @ [2000])
   \<and> fetches (trace (snd (checkVersion env s0))) \<le> fetches (trace s0) + 3
   \<and> (\<exists>k\<le>2. waits (trace (snd (checkVersion env s0)))
               = waits (trace s0) @ take k [2000, 4000])"
proof (intro conjI impI)
  assume h: "checkVersion_try env s0 = (Inl e1, s1)
      \<and> checkVersion_try env (snd (checkVersion_catch 1 e1 s1)) = (Inl e2, s2)
      \<and> checkVersion_try env (snd (checkVersion_catch 2 e2 s2)) = (Inl e3, s3)"
  then have h1: "checkVersion_try env s0 = (Inl e1, s1)"
    and h2: "checkVersion_try env (snd (checkVersion_catch 1 e1 s1)) = (Inl e2, s2)"
    and h3: "checkVersion_try env (snd (checkVersion_catch 2 e2 s2)) = (Inl e3, s3)"
    by blast+
  have r: "checkVersion env s0 = (Inl e3, snd (checkVersion_catch 3 e3 s3))"
    unfolding checkVersion_unfold h1 sum.case prod.case h2 h3 by simp
  show "fst (checkVersion env s0) = Inl e3" by (simp add: r)
  have "waits (trace (snd (checkVersion env s0))) = waits (trace s3)"
    unfolding r snd_conv checkVersion_catch_waits ..
  also have "\<dots> = waits (trace (snd (checkVersion_catch 2 e2 s2)))"
    using h3 by (rule checkVersion_try_waits)
  also have "\<dots> = waits (trace s2) @ [4000]" by (rule checkVersion_catch_waits)
  also have "waits (trace s2) = waits (trace (snd (checkVersion_catch 1 e1 s1)))"
    using h2 by (rule checkVersion_try_waits)
  also have "\<dots> = waits (trace s1) @ [2000]" by (rule checkVersion_catch_waits)
  also have "waits (trace s1) = waits (trace s0)"
    using h1 by (rule checkVersion_try_waits)
  finally show "waits (trace (snd (checkVersion env s0))) = waits (trace s0) @ [2000, 4000]"
    by simp
  show "trace (snd (checkVersion env s0))
            = trace s3 @ [Warned ''checkVersion attempt 3/3'' e3, Toasted CheckFailedToast]"
    unfolding r checkVersion_catch_3 by simp
next
  assume h: "checkVersion_try env s0 = (Inl e1, s1)
      \<and> checkVersion_try env (snd (checkVersion_catch 1 e1 s1)) = (Inr info, s2)"
  then have h1: "checkVersion_try env s0 = (Inl e1, s1)"
    and h2: "checkVersion_try env (snd (checkVersion_catch 1 e1 s1)) = (Inr info, s2)"
    by blast+
  show "checkVersion env s0 = (Inr info, s2)"
    unfolding checkVersion_unfold h1 sum.case prod.case h2 by simp
  have "waits (trace s2) = waits (trace (snd (checkVersion_catch 1 e1 s1)))"
    using h2 by (rule checkVersion_try_waits)
  also have "\<dots> = waits (trace s1) @ [2000]" by (rule checkVersion_catch_waits)
  also have "waits (trace s1) = waits (trace s0)"
    using h1 by (rule checkVersion_try_waits)
  finally show "waits (trace s2) = waits (trace s0) @ [2000]" .
next
  show "fetches (trace (snd (checkVersion env s0))) \<le> fetches (trace s0) + 3"
  proof (cases rule: checkVersion_run [of env s0])
    case (first info t1)
    then show ?thesis using checkVersion_try_waits(2) [OF first(1)] by simp
  next
    case (second e1 t1 info t2)
    show ?thesis
      using checkVersion_try_waits(2) [OF second(1)] checkVersion_try_waits(2) [OF second(2)]
      unfolding second(3) snd_conv checkVersion_catch_waits by simp
  next
    case (third e1 t1 e2 t2 info t3)
    show ?thesis
      using checkVersion_try_waits(2) [OF third(1)] checkVersion_try_waits(2) [OF third(2)]
        checkVersion_try_waits(2) [OF third(3)]
      unfolding third(4) snd_conv checkVersion_catch_waits by simp
  next
    case (failed e1 t1 e2 t2 e3 t3)
    show ?thesis
      using checkVersion_try_waits(2) [OF failed(1)] checkVersion_try_waits(2) [OF failed(2)]
        checkVersion_try_waits(2) [OF failed(3)]
      unfolding failed(4) snd_conv checkVersion_catch_waits by simp
  qed
next
  show "\<exists>k\<le>2. waits (trace (snd (checkVersion env s0)))
               = waits (trace s0) @ take k [2000, 4000]"
  proof (cases rule: checkVersion_run [of env s0])
    case (first info t1)
    then show ?thesis using checkVersion_try_waits(1) [OF first(1)]
      by (intro exI [of _ 0]) simp
  next
    case (second e1 t1 info t2)
    show ?thesis
      using checkVersion_try_waits(1) [OF second(1)] checkVersion_try_waits(1) [OF second(2)]
      unfolding second(3) snd_conv checkVersion_catch_waits
      by (intro exI [of _ 1]) simp
  next
    case (third e1 t1 e2 t2 info t3)
    show ?thesis
      using checkVersion_try_waits(1) [OF third(1)] checkVersion_try_waits(1) [OF third(2)]
        checkVersion_try_waits(1) [OF third(3)]
      unfolding third(4) snd_conv checkVersion_catch_waits
      by (intro exI [of _ 2]) simp
  next
    case (failed e1 t1 e2 t2 e3 t3)
    show ?thesis
      using checkVersion_try_waits(1) [OF failed(1)] checkVersion_try_waits(1) [OF failed(2)]
        checkVersion_try_waits(1) [OF failed(3)]
      unfolding failed(4) snd_conv checkVersion_catch_waits
      by (intro exI [of _ 2]) simp
  qed
qed

lemmas env_eval = offline_env_def directory_env_def second_try_env_def manifest_env_def
  no_uri_env_def initial_def

text \<open>A network that is down, and one that answers the second request.\<close>

theorem checkVersion_retries_witness:
  "checkVersion offline_env initial =
     (Inl (Error ''offline''),
      \<lparr>world = 3,
       trace = [Fetched ''https://example.invalid/package.json'',
                Warned ''checkVersion attempt 1/3'' (Error ''offline''), Waited 2000,
                Fetched ''https://example.invalid/package.json'',
                Warned ''checkVersion attempt 2/3'' (Error ''offline''), Waited 4000,
                Fetched ''https://example.invalid/package.json'',
                Warned ''checkVersion attempt 3/3'' (Error ''offline''),
                Toasted CheckFailedToast]\<rparr>)
   \<and> waits (trace (snd (checkVersion offline_env initial))) = [2000, 4000]
   \<and> checkVersion second_try_env initial =
     (Inr \<lparr>version = Value (JString ''1.3.0''),
           downloadUrl = ''https://example.invalid/orionTV.apk''\<rparr>,
      \<lparr>world = 2,
       trace = [Fetched ''https://example.invalid/package.json'',
                Warned ''checkVersion attempt 1/3'' (Error ''offline''), Waited 2000,
                Fetched ''https://example.invalid/package.json'']\<rparr>)"
proof -
  define u where "u = ''https://example.invalid/package.json''"
  define e where "e = Error ''offline''"
  define a1 :: "nat state" where "a1 = \<lparr>world = 1, trace = [Fetched u]\<rparr>"
  define a2 :: "nat state" where "a2 = \<lparr>world = 2, trace = [Fetched u, Warned ''checkVersion attempt 1/3'' e, Waited 2000, Fetched u]\<rparr>"
  define a3 :: "nat state" where "a3 = \<lparr>world = 3, trace = [Fetched u, Warned ''checkVersion attempt 1/3'' e, Waited 2000, Fetched u,
     Warned ''checkVersion attempt 2/3'' e, Waited 4000, Fetched u]\<rparr>"
  define info where "info = \<lparr>version = Value (JString ''1.3.0''),
           downloadUrl = ''https://example.invalid/orionTV.apk''\<rparr>"
  have f1: "checkVersion_try offline_env initial = (Inl e, a1)"
    by (simp add: checkVersion_try_def task_defs env_eval a1_def u_def e_def)
  have f2: "checkVersion_try offline_env (snd (checkVersion_catch 1 e a1)) = (Inl e, a2)"
    unfolding checkVersion_catch_1
    by (simp add: checkVersion_try_def task_defs env_eval a1_def a2_def u_def e_def)
  have f3: "checkVersion_try offline_env (snd (checkVersion_catch 2 e a2)) = (Inl e, a3)"
    unfolding checkVersion_catch_2
    by (simp add: checkVersion_try_def task_defs env_eval a2_def a3_def u_def e_def)
  have g1: "checkVersion_try second_try_env initial = (Inl e, a1)"
    by (simp add: checkVersion_try_def task_defs env_eval a1_def u_def e_def)
  have g2: "checkVersion_try second_try_env (snd (checkVersion_catch 1 e a1)) = (Inr info, a2)"
    unfolding checkVersion_catch_1
    by (simp add: checkVersion_try_def task_defs env_eval a1_def a2_def u_def e_def info_def)
  have w0: "waits (trace initial) = []" by (simp add: initial_def)
  have "fst (checkVersion offline_env initial) = Inl e
      \<and> waits (trace (snd (checkVersion offline_env initial))) = waits (trace initial) @ [2000, 4000]
      \<and> trace (snd (checkVersion offline_env initial))
            = trace a3 @ [Warned ''checkVersion attempt 3/3'' e, Toasted CheckFailedToast]"
    using checkVersion_retries [where env = offline_env and ?s0.0 = initial and ?e1.0 = e
        and ?s1.0 = a1 and ?e2.0 = e and ?s2.0 = a2 and ?e3.0 = e and ?s3.0 = a3] f1 f2 f3
    by blast
  then have r1: "fst (checkVersion offline_env initial) = Inl e"
    "waits (trace (snd (checkVersion offline_env initial))) = [2000, 4000]"
    "trace (snd (checkVersion offline_env initial))
            = trace a3 @ [Warned ''checkVersion attempt 3/3'' e, Toasted CheckFailedToast]"
    unfolding w0 by (simp_all add: a3_def)
  have r2: "checkVersion second_try_env initial = (Inr info, a2)"
    using checkVersion_retries [where env = second_try_env and ?s0.0 = initial and ?e1.0 = e
        and ?s1.0 = a1 and info = info and ?s2.0 = a2] g1 g2
    by blast
  have "world (snd (checkVersion offline_env initial)) = 3"
    unfolding checkVersion_unfold f1 f2 f3 sum.case prod.case checkVersion_catch_3
    by (simp add: a3_def)
  then have "checkVersion offline_env initial =
     (Inl e, \<lparr>world = 3, trace = trace a3 @ [Warned ''checkVersion attempt 3/3'' e, Toasted CheckFailedToast]\<rparr>)"
    using r1(1,3) by (cases "checkVersion offline_env initial") (auto intro: state.equality)
  then show ?thesis using r1(2) r2
    by (simp add: a3_def a2_def u_def e_def info_def)
qed

text \<open>
  C10, as stated, fails: the body \<^verbatim>\<open>null\<close> parses as JSON, and reading its \<^verbatim>\<open>version\<close> throws
  a \<^verbatim>\<open>TypeError\<close>, so every attempt fails and \<open>checkVersion\<close> throws.
\<close>

theorem checkVersion_null_manifest_counterexample:
  "fetch (manifest_env JNull) (GITHUB_RAW_URL (manifest_env JNull)) 0
     = (Inr \<lparr>ok = True, status = 200, json_body = Inr JNull\<rparr>, 1)
   \<and> fst (checkVersion (manifest_env JNull) initial) = Inl TypeError"
proof -
  have t: "checkVersion_try (manifest_env JNull) s
    = (Inl TypeError, s\<lparr>trace := trace s @ [Fetched ''https://example.invalid/package.json''],
        world := Suc (world s)\<rparr>)" for s
    by (simp add: checkVersion_try_def task_defs env_eval)
  show ?thesis
    unfolding checkVersion_unfold t sum.case prod.case checkVersion_catch_3
    by (simp add: env_eval)
qed

text \<open>
  C10, amended. For every response with ok status whose body parses as JSON to a value
  other than \<^verbatim>\<open>null\<close>, the attempt succeeds, whether it is the first, the second or the third:
  \<open>checkVersion\<close> returns the value of the \<^verbatim>\<open>version\<close> member as it is, string or not (that of the
  last member of that name), and \<^verbatim>\<open>undefined\<close> when the body is not an object or has no such
  member, with the download URL the URL builder makes of that value. Here \<open>s\<close> is the state in
  which the attempt starts: the initial one, or the one after the \<^verbatim>\<open>catch\<close> of a failed first
  or second attempt.
\<close>

theorem checkVersion_no_validation:
  fixes env :: "'w env" and s :: "'w state" and w :: 'w
  defines "s' \<equiv> s\<lparr>trace := trace s @ [Fetched (GITHUB_RAW_URL env)], world := w\<rparr>"
  assumes "fetch env (GITHUB_RAW_URL env) (world s) = (Inr resp, w)"
    and "ok resp" and "json_body resp = Inr body" and "body \<noteq> JNull"
  shows "\<exists>v.
       checkVersion_try env s = (Inr \<lparr>version = v, downloadUrl = getDownloadUrl env v\<rparr>, s')
     \<and> checkVersion env s = (Inr \<lparr>version = v, downloadUrl = getDownloadUrl env v\<rparr>, s')
     \<and> (checkVersion_try env s0 = (Inl e1, s1) \<and> snd (checkVersion_catch 1 e1 s1) = s
        \<longrightarrow> checkVersion env s0 = (Inr \<lparr>version = v, downloadUrl = getDownloadUrl env v\<rparr>, s'))
     \<and> (checkVersion_try env s0 = (Inl e1, s1)
          \<and> checkVersion_try env (snd (checkVersion_catch 1 e1 s1)) = (Inl e2, s2)
          \<and> snd (checkVersion_catch 2 e2 s2) = s
        \<longrightarrow> checkVersion env s0 = (Inr \<lparr>version = v, downloadUrl = getDownloadUrl env v\<rparr>, s'))
     \<and> ((\<forall>members. body \<noteq> JObject members) \<longrightarrow> v = Undefined)
     \<and> (\<forall>members. body = JObject members \<and> ''version'' \<notin> fst ` set members
          \<longrightarrow> v = Undefined)
     \<and> (\<forall>before x after. body = JObject (before @ (''version'', x) # after)
              \<and> ''version'' \<notin> fst ` set after
          \<longrightarrow> v = Value x)"
proof -
  obtain v where v: "get_version body = Inr v"
    using assms(5) by (cases body) simp_all
  define info where "info = \<lparr>version = v, downloadUrl = getDownloadUrl env v\<rparr>"
  have t: "checkVersion_try env s = (Inr info, s')"
    using assms(2-5) v by (simp add: checkVersion_try_def task_defs info_def s'_def)
  have 1: "checkVersion env s = (Inr info, s')"
    unfolding checkVersion_unfold t by simp
  have 2: "checkVersion_try env s0 = (Inl e1, s1) \<and> snd (checkVersion_catch 1 e1 s1) = s
        \<longrightarrow> checkVersion env s0 = (Inr info, s')"
  proof
    assume "checkVersion_try env s0 = (Inl e1, s1) \<and> snd (checkVersion_catch 1 e1 s1) = s"
    then have a: "checkVersion_try env s0 = (Inl e1, s1)"
      and b: "snd (checkVersion_catch 1 e1 s1) = s" by blast+
    show "checkVersion env s0 = (Inr info, s')"
      unfolding checkVersion_unfold a sum.case prod.case b t by simp
  qed
  have 3: "checkVersion_try env s0 = (Inl e1, s1)
          \<and> checkVersion_try env (snd (checkVersion_catch 1 e1 s1)) = (Inl e2, s2)
          \<and> snd (checkVersion_catch 2 e2 s2) = s
        \<longrightarrow> checkVersion env s0 = (Inr info, s')"
  proof
    assume "checkVersion_try env s0 = (Inl e1, s1)
          \<and> checkVersion_try env (snd (checkVersion_catch 1 e1 s1)) = (Inl e2, s2)
          \<and> snd (checkVersion_catch 2 e2 s2) = s"
    then have a: "checkVersion_try env s0 = (Inl e1, s1)"
      and b: "checkVersion_try env (snd (checkVersion_catch 1 e1 s1)) = (Inl e2, s2)"
      and c: "snd (checkVersion_catch 2 e2 s2) = s" by blast+
    show "checkVersion env s0 = (Inr info, s')"
      unfolding checkVersion_unfold a sum.case prod.case b c t by simp
  qed
  have 4: "(\<forall>members. body \<noteq> JObject members) \<longrightarrow> v = Undefined"
    using v assms(5) by (cases body) auto
  have 5: "\<forall>members. body = JObject members \<and> ''version'' \<notin> fst ` set members
          \<longrightarrow> v = Undefined"
  proof (intro allI impI)
    fix members
    assume m: "body = JObject members \<and> ''version'' \<notin> fst ` set members"
    then have "map_of (rev members) ''version'' = None" by (simp add: map_of_eq_None_iff)
    then show "v = Undefined" using v m by simp
  qed
  have 6: "\<forall>before x after. body = JObject (before @ (''version'', x) # after)
              \<and> ''version'' \<notin> fst ` set after
          \<longrightarrow> v = Value x"
  proof (intro allI impI)
    fix before x after
    assume m: "body = JObject (before @ (''version'', x) # after)
              \<and> ''version'' \<notin> fst ` set after"
    then have "map_of (rev after) ''version'' = None" by (simp add: map_of_eq_None_iff)
    then have "map_of (rev (before @ (''version'', x) # after)) ''version'' = Some x"
      by (simp add: map_add_def)
    then show "v = Value x" using v m by simp
  qed
  from t 1 2 3 4 5 6 show ?thesis
    unfolding info_def by (intro exI [of _ v] conjI)
qed

text \<open>
  A manifest whose \<^verbatim>\<open>version\<close> is the number 2, answered to the first request and to the third
  one, and a manifest without a \<^verbatim>\<open>version\<close>, answered to the second request.
\<close>

theorem checkVersion_no_validation_witness:
  "fetch (late_manifest_env 0 (JObject [(''name'', JString ''OrionTV''), (''version'', JNumber 2)]))
       ''https://example.invalid/package.json'' (world initial)
     = (Inr \<lparr>ok = True, status = 200,
             json_body = Inr (JObject [(''name'', JString ''OrionTV''), (''version'', JNumber 2)])\<rparr>, 1)
   \<and> checkVersion (late_manifest_env 0 (JObject [(''name'', JString ''OrionTV''), (''version'', JNumber 2)]))
       initial
     = (Inr \<lparr>version = Value (JNumber 2), downloadUrl = ''https://example.invalid/v?/orionTV.apk''\<rparr>,
        \<lparr>world = 1, trace = [Fetched ''https://example.invalid/package.json'']\<rparr>)
   \<and> fst (checkVersion (late_manifest_env 1 (JObject [(''name'', JString ''OrionTV'')])) initial)
     = Inr \<lparr>version = Undefined, downloadUrl = ''https://example.invalid/vundefined/orionTV.apk''\<rparr>
   \<and> fst (checkVersion
         (late_manifest_env 2 (JObject [(''name'', JString ''OrionTV''), (''version'', JNumber 2)]))
         initial)
     = Inr \<lparr>version = Value (JNumber 2), downloadUrl = ''https://example.invalid/v?/orionTV.apk''\<rparr>"
proof -
  define B where "B = JObject [(''name'', JString ''OrionTV''), (''version'', JNumber 2)]"
  define N where "N = JObject [(''name'', JString ''OrionTV'')]"
  define url where "url = ''https://example.invalid/package.json''"
  define e where "e = Error ''offline''"
  note ev = late_manifest_env_def offline_env_def
  have u: "GITHUB_RAW_URL (late_manifest_env n body) = url" for n body
    by (simp add: ev url_def)
  have bB: "B = JObject ([(''name'', JString ''OrionTV'')] @ (''version'', JNumber 2) # [])
      \<and> ''version'' \<notin> fst ` set ([] :: (string \<times> json) list)"
    by (simp add: B_def)
  have bN: "N = JObject [(''name'', JString ''OrionTV'')]
      \<and> ''version'' \<notin> fst ` set [(''name'', JString ''OrionTV'')]"
    by (simp add: N_def)
  have nB: "B \<noteq> JNull" and nN: "N \<noteq> JNull" by (simp_all add: B_def N_def)
  have fail: "checkVersion_try (late_manifest_env n body) s
      = (Inl e, s\<lparr>trace := trace s @ [Fetched url], world := Suc (world s)\<rparr>)"
    if "world s < n" for n body and s :: "nat state"
    using that by (simp add: checkVersion_try_def task_defs ev url_def e_def)
  have answer: "fetch (late_manifest_env n body) (GITHUB_RAW_URL (late_manifest_env n body)) (world s)
      = (Inr \<lparr>ok = True, status = 200, json_body = Inr body\<rparr>, Suc (world s))"
    if "n \<le> world s" for n body and s :: "nat state"
    using that by (simp add: ev)
  have r: "ok \<lparr>ok = True, status = 200, json_body = Inr body\<rparr>"
    "json_body \<lparr>ok = True, status = 200, json_body = Inr body\<rparr> = Inr body" for body :: json
    by simp_all
  \<comment> \<open>the first attempt\<close>
  have h0: "0 \<le> world initial" by simp
  from checkVersion_no_validation [OF answer [OF h0] r nB] bB
  have first: "checkVersion (late_manifest_env 0 B) initial =
      (Inr \<lparr>version = Value (JNumber 2),
            downloadUrl = getDownloadUrl (late_manifest_env 0 B) (Value (JNumber 2))\<rparr>,
       initial\<lparr>trace := trace initial @ [Fetched (GITHUB_RAW_URL (late_manifest_env 0 B))],
                world := Suc (world initial)\<rparr>)"
    by blast
  \<comment> \<open>the second attempt\<close>
  define a1 :: "nat state" where "a1 = \<lparr>world = 1, trace = [Fetched url]\<rparr>"
  define b1 where "b1 = snd (checkVersion_catch 1 e a1)"
  have w1: "world b1 = 1" unfolding b1_def checkVersion_catch_1 by (simp add: a1_def)
  have f1: "checkVersion_try (late_manifest_env n body) initial = (Inl e, a1)" if "0 < n" for n body
    using fail [of initial n body] that by (simp add: initial_def a1_def)
  have h1: "1 \<le> world b1" using w1 by simp
  have c1: "checkVersion_try (late_manifest_env 1 N) initial = (Inl e, a1)
      \<and> snd (checkVersion_catch 1 e a1) = b1"
    using f1 [of 1 N] by (simp add: b1_def)
  from checkVersion_no_validation [OF answer [OF h1] r nN, where ?s0.0 = initial and ?e1.0 = e
      and ?s1.0 = a1] c1 bN
  have second: "fst (checkVersion (late_manifest_env 1 N) initial) =
      Inr \<lparr>version = Undefined, downloadUrl = getDownloadUrl (late_manifest_env 1 N) Undefined\<rparr>"
    by force
  \<comment> \<open>the third attempt\<close>
  define a2 :: "nat state" where "a2 = b1\<lparr>trace := trace b1 @ [Fetched url], world := 2\<rparr>"
  define b2 where "b2 = snd (checkVersion_catch 2 e a2)"
  have w2: "world b2 = 2" unfolding b2_def checkVersion_catch_2 by (simp add: a2_def)
  have f2: "checkVersion_try (late_manifest_env 2 B) b1 = (Inl e, a2)"
    using fail [of b1 2 B] w1 by (simp add: a2_def)
  have h2: "2 \<le> world b2" using w2 by simp
  have c2: "checkVersion_try (late_manifest_env 2 B) initial = (Inl e, a1)
      \<and> checkVersion_try (late_manifest_env 2 B) (snd (checkVersion_catch 1 e a1)) = (Inl e, a2)
      \<and> snd (checkVersion_catch 2 e a2) = b2"
    using f1 [of 2 B] f2 by (simp add: b1_def b2_def)
  from checkVersion_no_validation [OF answer [OF h2] r nB, where ?s0.0 = initial and ?e1.0 = e
      and ?s1.0 = a1 and ?e2.0 = e and ?s2.0 = a2]
  obtain v where v3: "checkVersion_try (late_manifest_env 2 B) initial = (Inl e, a1)
          \<and> checkVersion_try (late_manifest_env 2 B) (snd (checkVersion_catch 1 e a1)) = (Inl e, a2)
          \<and> snd (checkVersion_catch 2 e a2) = b2
        \<longrightarrow> checkVersion (late_manifest_env 2 B) initial =
            (Inr \<lparr>version = v, downloadUrl = getDownloadUrl (late_manifest_env 2 B) v\<rparr>,
             b2\<lparr>trace := trace b2 @ [Fetched (GITHUB_RAW_URL (late_manifest_env 2 B))],
                world := Suc (world b2)\<rparr>)"
    and vx: "\<forall>before x after. B = JObject (before @ (''version'', x) # after)
              \<and> ''version'' \<notin> fst ` set after
          \<longrightarrow> v = Value x"
    by blast
  from vx bB have "v = Value (JNumber 2)" by blast
  with v3 c2 have third: "fst (checkVersion (late_manifest_env 2 B) initial) =
      Inr \<lparr>version = Value (JNumber 2),
           downloadUrl = getDownloadUrl (late_manifest_env 2 B) (Value (JNumber 2))\<rparr>"
    by simp
  have "fetch (late_manifest_env 0 B) url (world initial)
     = (Inr \<lparr>ok = True, status = 200, json_body = Inr B\<rparr>, 1)"
    using answer [OF h0, of B] by (simp add: u initial_def)
  then show ?thesis
    using first second third
    unfolding B_def [symmetric] N_def [symmetric] url_def [symmetric]
    by (simp add: u initial_def) (simp add: ev)
qed

section \<open>Installation\<close>

text \<open>
  C8. When no file exists at the URI (\<^verbatim>\<open>getInfoAsync\<close> answers \<^verbatim>\<open>exists: false\<close>),
  \<open>installApk\<close> throws the not-found error, and nothing has happened but that one call: the
  trace is unchanged, so the intent launcher was not invoked.
\<close>

theorem installApk_not_found:
  assumes "getInfoAsync env fileUri (world s) = (Inr info, w)" and "\<not> file_exists info"
  shows "installApk env fileUri s = (Inl (Error (''APK not found at '' @ fileUri)), s\<lparr>world := w\<rparr>)
       \<and> trace (snd (installApk env fileUri s)) = trace s"
  using assms by (simp add: installApk_def task_defs)

theorem installApk_not_found_witness:
  "getInfoAsync offline_env ''file:///files/OrionTV_v1.apk'' (world initial)
     = (Inr \<lparr>file_exists = False\<rparr>, 0)
   \<and> installApk offline_env ''file:///files/OrionTV_v1.apk'' initial
     = (Inl (Error ''APK not found at file:///files/OrionTV_v1.apk''), initial)"
proof -
  have h1: "getInfoAsync offline_env ''file:///files/OrionTV_v1.apk'' (world initial)
     = (Inr \<lparr>file_exists = False\<rparr>, 0)" by (simp add: env_eval)
  have h2: "\<not> file_exists \<lparr>file_exists = False\<rparr>" by simp
  show ?thesis using installApk_not_found [OF h1 h2] h1 by (simp add: initial_def)
qed

section \<open>Download\<close>

lemma downloadApk_catch_1:
  "downloadApk_catch 1 e s =
     (Inr None, s\<lparr>trace := trace s @ [Warned ''downloadApk attempt 1/3'' e, Waited 3000]\<rparr>)"
  by (simp add: downloadApk_catch_def task_defs maxRetries_def)

lemma downloadApk_catch_2:
  "downloadApk_catch 2 e s =
     (Inr None, s\<lparr>trace := trace s @ [Warned ''downloadApk attempt 2/3'' e, Waited 6000]\<rparr>)"
  by (simp add: downloadApk_catch_def task_defs maxRetries_def)

lemma downloadApk_catch_3:
  "downloadApk_catch 3 e s =
     (Inl e, s\<lparr>trace := trace s @ [Warned ''downloadApk attempt 3/3'' e, Toasted DownloadFailedToast]\<rparr>)"
  by (simp add: downloadApk_catch_def task_defs maxRetries_def)

lemma downloadApk_from_1:
  "downloadApk_from env url onProgress 1 s =
     (case downloadApk_try env url onProgress s of
        (Inr u, s1) \<Rightarrow> (Inr u, s1)
      | (Inl e, s1) \<Rightarrow> downloadApk_from env url onProgress 2 (snd (downloadApk_catch 1 e s1)))"
  by (subst downloadApk_from.simps)
     (simp del: One_nat_def
       add: bind_def try_catch_def succeed_def downloadApk_catch_1 maxRetries_def
       split: prod.splits sum.splits)

lemma downloadApk_from_2:
  "downloadApk_from env url onProgress 2 s =
     (case downloadApk_try env url onProgress s of
        (Inr u, s1) \<Rightarrow> (Inr u, s1)
      | (Inl e, s1) \<Rightarrow> downloadApk_from env url onProgress 3 (snd (downloadApk_catch 2 e s1)))"
  by (subst downloadApk_from.simps)
     (simp add: bind_def try_catch_def succeed_def downloadApk_catch_2 maxRetries_def
       split: prod.splits sum.splits)

lemma downloadApk_from_3:
  "downloadApk_from env url onProgress 3 s =
     (case downloadApk_try env url onProgress s of
        (Inr u, s1) \<Rightarrow> (Inr u, s1)
      | (Inl e, s1) \<Rightarrow> (Inl e, snd (downloadApk_catch 3 e s1)))"
  by (subst downloadApk_from.simps)
     (simp add: bind_def try_catch_def succeed_def downloadApk_catch_3 maxRetries_def
       split: prod.splits sum.splits)

lemma downloadApk_after_cleanup:
  "downloadApk js env url onProgress s =
     downloadApk_from env url onProgress 1 (snd (cleanOldApkFiles js env s))"
  using cleanOldApkFiles_returns [of js env s]
  by (cases "cleanOldApkFiles js env s") (simp add: downloadApk_def bind_def)

text \<open>
  C7. A transfer that resolves to a result without a URI (no result, no \<^verbatim>\<open>uri\<close>, or an empty
  one) makes the attempt fail with the error \<^verbatim>\<open>Download failed: No URI available\<close>. When
  the 3 attempts after the cleanup fail, \<open>downloadApk\<close> logs the third failure, shows the
  download-failed toast and throws the error of the third attempt.
\<close>

theorem downloadApk_no_uri_fails:
  "(date_now env (world s) = (t, w1)
      \<and> downloadAsync env url
           ((case documentDirectory env of None \<Rightarrow> ''null'' | Some d \<Rightarrow> d)
              @ ''OrionTV_v'' @ show_nat t @ ''.apk'') w1
          = ((reports, Inr result), w2)
      \<and> result_uri result = None
    \<longrightarrow> fst (downloadApk_try env url onProgress s)
          = Inl (Error ''Download failed: No URI available''))
   \<and> result_uri None = None
   \<and> result_uri (Some \<lparr>uri = None\<rparr>) = None
   \<and> result_uri (Some \<lparr>uri = Some []\<rparr>) = None
   \<and> (downloadApk_try env url onProgress (snd (cleanOldApkFiles js env s0)) = (Inl e1, s1)
      \<and> downloadApk_try env url onProgress (snd (downloadApk_catch 1 e1 s1)) = (Inl e2, s2)
      \<and> downloadApk_try env url onProgress (snd (downloadApk_catch 2 e2 s2)) = (Inl e3, s3)
    \<longrightarrow> downloadApk js env url onProgress s0 =
          (Inl e3,
           s3\<lparr>trace := trace s3 @
                [Warned ''downloadApk attempt 3/3'' e3, Toasted DownloadFailedToast]\<rparr>))"
proof (intro conjI impI)
  assume "date_now env (world s) = (t, w1)
      \<and> downloadAsync env url
           ((case documentDirectory env of None \<Rightarrow> ''null'' | Some d \<Rightarrow> d)
              @ ''OrionTV_v'' @ show_nat t @ ''.apk'') w1
          = ((reports, Inr result), w2)
      \<and> result_uri result = None"
  then show "fst (downloadApk_try env url onProgress s)
          = Inl (Error ''Download failed: No URI available'')"
    by (simp add: downloadApk_try_def download_transfer_def task_defs Let_def)
next
  assume h: "downloadApk_try env url onProgress (snd (cleanOldApkFiles js env s0)) = (Inl e1, s1)
      \<and> downloadApk_try env url onProgress (snd (downloadApk_catch 1 e1 s1)) = (Inl e2, s2)
      \<and> downloadApk_try env url onProgress (snd (downloadApk_catch 2 e2 s2)) = (Inl e3, s3)"
  then have h1: "downloadApk_try env url onProgress (snd (cleanOldApkFiles js env s0)) = (Inl e1, s1)"
    and h2: "downloadApk_try env url onProgress (snd (downloadApk_catch 1 e1 s1)) = (Inl e2, s2)"
    and h3: "downloadApk_try env url onProgress (snd (downloadApk_catch 2 e2 s2)) = (Inl e3, s3)"
    by blast+
  show "downloadApk js env url onProgress s0 =
          (Inl e3,
           s3\<lparr>trace := trace s3 @
                [Warned ''downloadApk attempt 3/3'' e3, Toasted DownloadFailedToast]\<rparr>)"
    unfolding downloadApk_after_cleanup downloadApk_from_1 h1 sum.case prod.case
      downloadApk_from_2 h2 downloadApk_from_3 h3 downloadApk_catch_3
    by simp
qed (simp_all add: result_uri_def)

text \<open>A file system whose transfers all resolve without a URI.\<close>

theorem downloadApk_no_uri_fails_witness:
  "downloadApk example_engine no_uri_env ''https://example.invalid/orionTV.apk'' None initial =
     (Inl (Error ''Download failed: No URI available''),
      \<lparr>world = 3,
       trace = [Warned ''cleanOldApkFiles error'' (Error ''Document directory is not available''),
                Downloaded ''https://example.invalid/orionTV.apk'' ''nullOrionTV_v0.apk'',
                Warned ''downloadApk attempt 1/3'' (Error ''Download failed: No URI available''),
                Waited 3000,
                Downloaded ''https://example.invalid/orionTV.apk'' ''nullOrionTV_v1.apk'',
                Warned ''downloadApk attempt 2/3'' (Error ''Download failed: No URI available''),
                Waited 6000,
                Downloaded ''https://example.invalid/orionTV.apk'' ''nullOrionTV_v2.apk'',
                Warned ''downloadApk attempt 3/3'' (Error ''Download failed: No URI available''),
                Toasted DownloadFailedToast]\<rparr>)"
proof -
  define u where "u = ''https://example.invalid/orionTV.apk''"
  define e where "e = Error ''Download failed: No URI available''"
  define c where "c = Warned ''cleanOldApkFiles error'' (Error ''Document directory is not available'')"
  define a1 :: "nat state" where
    "a1 = \<lparr>world = 1, trace = [c, Downloaded u ''nullOrionTV_v0.apk'']\<rparr>"
  define a2 :: "nat state" where
    "a2 = \<lparr>world = 2, trace = [c, Downloaded u ''nullOrionTV_v0.apk'',
       Warned ''downloadApk attempt 1/3'' e, Waited 3000, Downloaded u ''nullOrionTV_v1.apk'']\<rparr>"
  define a3 :: "nat state" where
    "a3 = \<lparr>world = 3, trace = [c, Downloaded u ''nullOrionTV_v0.apk'',
       Warned ''downloadApk attempt 1/3'' e, Waited 3000, Downloaded u ''nullOrionTV_v1.apk'',
       Warned ''downloadApk attempt 2/3'' e, Waited 6000, Downloaded u ''nullOrionTV_v2.apk'']\<rparr>"
  have c0: "snd (cleanOldApkFiles example_engine no_uri_env initial) = \<lparr>world = 0, trace = [c]\<rparr>"
    by (simp add: cleanOldApkFiles_def task_defs env_eval c_def)
  have sn: "show_nat 0 = ''0''" by (simp add: show_nat_digit)
  have f1: "downloadApk_try no_uri_env u None (snd (cleanOldApkFiles example_engine no_uri_env initial))
      = (Inl e, a1)"
    unfolding c0
    by (simp add: downloadApk_try_def download_transfer_def result_uri_def task_defs env_eval Let_def
        a1_def e_def sn)
  have f2: "downloadApk_try no_uri_env u None (snd (downloadApk_catch 1 e a1)) = (Inl e, a2)"
    unfolding downloadApk_catch_1
    by (simp add: downloadApk_try_def download_transfer_def result_uri_def task_defs env_eval Let_def
        a1_def a2_def e_def)
  have f3: "downloadApk_try no_uri_env u None (snd (downloadApk_catch 2 e a2)) = (Inl e, a3)"
    unfolding downloadApk_catch_2
    by (simp add: downloadApk_try_def download_transfer_def result_uri_def task_defs env_eval Let_def
        a2_def a3_def e_def)
  have "downloadApk example_engine no_uri_env u None initial =
          (Inl e, a3\<lparr>trace := trace a3 @
                [Warned ''downloadApk attempt 3/3'' e, Toasted DownloadFailedToast]\<rparr>)"
    using downloadApk_no_uri_fails [where js = example_engine and env = no_uri_env and url = u
        and onProgress = None and ?s0.0 = initial and ?e1.0 = e and ?s1.0 = a1 and ?e2.0 = e
        and ?s2.0 = a2 and ?e3.0 = e and ?s3.0 = a3] f1 f2 f3
    by blast
  then show ?thesis by (simp add: a3_def u_def e_def c_def)
qed

section \<open>Progress of the download\<close>

lemma progressed_append [simp]: "progressed (xs @ ys) = progressed xs @ progressed ys"
  by (induction xs rule: progressed.induct) simp_all































end
